theory Spec2Isabelle
  imports Complex_Main "HOL-Library.Sublist" "HOL-Library.Log_Nat"
begin

section \<open>Numbers\<close>

text \<open>
  A JavaScript \<^verbatim>\<open>Number\<close> is an IEEE-754 double. The finite doubles are rationals, and
  a finite \<^verbatim>\<open>Number\<close> of the model is a \<^typ>\<open>rat\<close>: the values of request payloads and
  of the catalog. The quotient \<^verbatim>\<open>/\<close> and the product \<^verbatim>\<open>*\<close> of the code are rounded to
  the nearest double, ties to the even significand (\<open>fl\<close> below); the sum of \<^verbatim>\<open>+=\<close>,
  \<^verbatim>\<open>Math.max\<close> and \<^verbatim>\<open>Math.min\<close> are taken exactly (on integers below \<open>2^53\<close> the sum of
  the code is exact as well). \<^verbatim>\<open>Math.round\<close> gives the nearest integer, half-way cases
  towards \<open>+\<infinity>\<close>, which is \<^const>\<open>round\<close>; on a double it makes no error.

  A value that the code can compute from finite inputs but that is not finite
  (\<^verbatim>\<open>x / 0\<close>, an overflow, \<^verbatim>\<open>Math.max()\<close> of no arguments) is kept apart in \<open>jsnum\<close>.
\<close>

datatype jsnum = Num rat | NaN | PosInfinity | NegInfinity

text \<open>
  Rounding to double. The nearest integer, ties to the even one:
\<close>

definition round_half_even :: "rat \<Rightarrow> int" where
  "round_half_even y =
     (let f = \<lfloor>y\<rfloor>; r = y - of_int f
      in if r < 1 / 2 then f else if r > 1 / 2 then f + 1 else if even f then f else f + 1)"

text \<open>
  The binary exponent of a positive rational: \<open>2 ^ expo x \<le> x < 2 ^ (expo x + 1)\<close>.
\<close>

definition expo :: "rat \<Rightarrow> int" where
  "expo x =
     (if x \<ge> 1 then bitlen \<lfloor>x\<rfloor> - 1
      else (let k = bitlen \<lfloor>1 / x\<rfloor> - 1
            in if 1 / x = 2 ^ nat k then - k else - k - 1))"

text \<open>
  The distance between neighbouring doubles at \<open>x\<close>: 52 binary places below the leading
  one, and no finer than \<open>2 ^ - 1074\<close> (the subnormal doubles).
\<close>

definition ulp :: "rat \<Rightarrow> rat" where
  "ulp x = 2 powi (max (expo x) (- 1022) - 52)"

definition fl_pos :: "rat \<Rightarrow> rat" where
  "fl_pos x = of_int (round_half_even (x / ulp x)) * ulp x"

text \<open>The double nearest to \<open>x\<close>, with exponents unbounded above; sign and magnitude.\<close>

definition fl :: "rat \<Rightarrow> rat" where
  "fl x = (if x > 0 then fl_pos x else if x < 0 then - fl_pos (- x) else 0)"

text \<open>
  The result of an operation whose exact value is \<open>x\<close>: \<open>fl x\<close>, or an overflow when the
  magnitude of \<open>fl x\<close> reaches \<open>2 ^ 1024\<close>, that is when its exponent exceeds \<open>1023\<close>.
\<close>

definition to_double :: "rat \<Rightarrow> jsnum" where
  "to_double x =
     (let y = fl x
      in if 0 < y \<and> 1023 < expo y then PosInfinity
         else if y < 0 \<and> 1023 < expo (- y) then NegInfinity
         else Num y)"

text \<open>\<^verbatim>\<open>a / b\<close> on finite operands.\<close>

definition js_div :: "rat \<Rightarrow> rat \<Rightarrow> jsnum" where
  "js_div a b =
     (if b \<noteq> 0 then to_double (a / b)
      else if a > 0 then PosInfinity
      else if a < 0 then NegInfinity
      else NaN)"

text \<open>\<^verbatim>\<open>x * c\<close> for a finite constant \<open>c\<close> (the code only multiplies by 100).\<close>

fun js_times :: "jsnum \<Rightarrow> rat \<Rightarrow> jsnum" where
  "js_times (Num a) c = to_double (a * c)"
| "js_times NaN c = NaN"
| "js_times PosInfinity c = (if c > 0 then PosInfinity else if c < 0 then NegInfinity else NaN)"
| "js_times NegInfinity c = (if c > 0 then NegInfinity else if c < 0 then PosInfinity else NaN)"

text \<open>
  \<^verbatim>\<open>Math.round((a / b) * 100)\<close> for two counts \<open>a\<close> and \<open>b > 0\<close>: counts are integers
  below \<open>2^53\<close>, so that neither the quotient nor the product overflows.
\<close>

definition percent :: "nat \<Rightarrow> nat \<Rightarrow> int" where
  "percent a b = round (fl (fl (of_nat a / of_nat b) * 100))"

text \<open>\<^verbatim>\<open>Math.round(x)\<close>.\<close>

fun js_round :: "jsnum \<Rightarrow> jsnum" where
  "js_round (Num a) = Num (of_int (round a))"
| "js_round x = x"

text \<open>\<^verbatim>\<open>x >= c\<close>, \<^verbatim>\<open>x > c\<close> and \<^verbatim>\<open>Math.min(x, c)\<close> against a finite \<open>c\<close>.\<close>

fun js_ge :: "jsnum \<Rightarrow> rat \<Rightarrow> bool" where
  "js_ge (Num a) c = (a \<ge> c)"
| "js_ge PosInfinity c = True"
| "js_ge NaN c = False"
| "js_ge NegInfinity c = False"

fun js_gt :: "jsnum \<Rightarrow> rat \<Rightarrow> bool" where
  "js_gt (Num a) c = (a > c)"
| "js_gt PosInfinity c = True"
| "js_gt NaN c = False"
| "js_gt NegInfinity c = False"

fun js_min :: "jsnum \<Rightarrow> rat \<Rightarrow> jsnum" where
  "js_min (Num a) c = Num (min a c)"
| "js_min PosInfinity c = Num c"
| "js_min NaN c = NaN"
| "js_min NegInfinity c = NegInfinity"

text \<open>\<^verbatim>\<open>Math.max(a, b)\<close> on \<open>jsnum\<close>; \<^verbatim>\<open>Math.max(...xs)\<close> starts from \<open>-Infinity\<close>.\<close>

fun js_max :: "jsnum \<Rightarrow> jsnum \<Rightarrow> jsnum" where
  "js_max NaN y = NaN"
| "js_max x NaN = NaN"
| "js_max PosInfinity y = PosInfinity"
| "js_max x PosInfinity = PosInfinity"
| "js_max NegInfinity y = y"
| "js_max x NegInfinity = x"
| "js_max (Num a) (Num b) = Num (max a b)"

definition Math_max :: "jsnum list \<Rightarrow> jsnum" where
  "Math_max xs = fold (\<lambda>x acc. js_max acc x) xs NegInfinity"

text \<open>\<^verbatim>\<open>x || d\<close> on an optional number: \<^verbatim>\<open>undefined\<close> and \<open>0\<close> are falsy.\<close>

definition or_default :: "rat option \<Rightarrow> rat \<Rightarrow> rat" where
  "or_default x d = (case x of None \<Rightarrow> d | Some v \<Rightarrow> if v \<noteq> 0 then v else d)"

section \<open>Catalog: lessons and quiz questions (lessonSchema)\<close>

text \<open>
  Answers are \<^verbatim>\<open>Mixed\<close> values ("Can be string, number, or array"). Numbers inside
  answers are integers here, so that their JSON text is the decimal numeral.
  An absent field (\<^verbatim>\<open>undefined\<close>) is \<open>None\<close>.
\<close>

datatype jsval = JNull | JBool bool | JNum int | JStr string | JArr "jsval list"

datatype lesson_type = Video | Text | Quiz | Assignment | Live

record question =
  q_id :: string
  correctAnswer :: "jsval option"
  points :: "rat option"

record lesson =
  lesson_id :: string
  lesson_course :: string
  order :: int
  isPublished :: bool
  ltype :: lesson_type
  video_duration :: "rat option"
  requiredWatchTime :: "rat option"
  quiz_questions :: "question list"
  quiz_passingScore :: "rat option"

text \<open>\<^verbatim>\<open>Lesson.findById(id)\<close> over the lesson collection.\<close>

definition findById :: "lesson list \<Rightarrow> string \<Rightarrow> lesson option" where
  "findById db lid = find (\<lambda>l. lesson_id l = lid) db"

text \<open>
  \<^verbatim>\<open>findOne({course: this.course, order: {$gt: this.order}}).sort({order: 1})\<close>:
  the first lesson of the course, in ascending order, after this one.
\<close>

definition getNextLesson :: "lesson list \<Rightarrow> lesson \<Rightarrow> lesson option" where
  "getNextLesson db this =
     (case sort_key order
             (filter (\<lambda>l. lesson_course l = lesson_course this \<and> order l > order this) db) of
        [] \<Rightarrow> None
      | l # _ \<Rightarrow> Some l)"

text \<open>\<^verbatim>\<open>Lesson.countDocuments({course: c, isPublished: true})\<close>.\<close>

definition countPublished :: "lesson list \<Rightarrow> string \<Rightarrow> nat" where
  "countPublished db c = length (filter (\<lambda>l. lesson_course l = c \<and> isPublished l) db)"

section \<open>Lesson progress (progressSchema)\<close>

datatype progress_status = NotStarted | InProgress | Completed

record bookmark =
  bm_timestamp :: rat
  bm_note :: string

record lesson_note =
  content :: string
  note_timestamp :: "rat option"
  isPrivate :: bool

record graded_answer =
  questionId :: string
  answer :: "jsval option"
  isCorrect :: bool
  ans_points :: rat

record attempt =
  attemptNumber :: nat
  answers :: "graded_answer list"
  score :: rat
  percentage :: jsnum
  att_completedAt :: nat
  timeSpent :: rat

record progress =
  p_user :: string
  p_course :: string
  p_lesson :: string
  status :: progress_status
  watchTime :: rat
  totalWatchTime :: rat
  completionPercentage :: jsnum
  completedAt :: "nat option"
  lastAccessedAt :: nat
  bookmarks :: "bookmark list"
  lesson_notes :: "lesson_note list"
  quiz_attempts :: "attempt list"
  quiz_highestScore :: rat
  quiz_bestAttempt :: "nat option"
  quiz_passed :: bool

text \<open>
  \<^verbatim>\<open>new Progress({user, course, lesson, status: 'not-started'})\<close> with the schema's
  defaults; dates are milliseconds since the epoch.
\<close>

definition new_Progress :: "string \<Rightarrow> string \<Rightarrow> string \<Rightarrow> nat \<Rightarrow> progress" where
  "new_Progress u c l now =
     \<lparr>p_user = u, p_course = c, p_lesson = l, status = NotStarted, watchTime = 0,
      totalWatchTime = 0, completionPercentage = Num 0, completedAt = None,
      lastAccessedAt = now, bookmarks = [], lesson_notes = [], quiz_attempts = [],
      quiz_highestScore = 0, quiz_bestAttempt = None, quiz_passed = False\<rparr>"

text \<open>
  The methods of \<^verbatim>\<open>progressSchema\<close>. \<open>updateWatchTime\<close> and \<open>recordQuizAttempt\<close> read
  \<^verbatim>\<open>this.lesson\<close>, here the lesson document of a progress whose lesson has been
  populated, and the clock (\<^verbatim>\<open>new Date()\<close>); both are parameters. What the two methods
  do on a progress whose \<^verbatim>\<open>lesson\<close> is still the \<^verbatim>\<open>ObjectId\<close>, as the controller
  \<^verbatim>\<open>updateLessonProgress\<close> calls them, comes with the controller below.
  \<^verbatim>\<open>this.save()\<close> validates and persists the document and is not part of the model:
  a method returns the document it has updated.
\<close>

definition updateWatchTime :: "lesson \<Rightarrow> nat \<Rightarrow> rat \<Rightarrow> progress \<Rightarrow> progress" where
  "updateWatchTime lesson now seconds p =
     (let p1 = p\<lparr>watchTime := max (watchTime p) seconds\<rparr>;
          p2 = p1\<lparr>totalWatchTime := totalWatchTime p1 + seconds\<rparr>
      in case video_duration lesson of
           None \<Rightarrow> p2
         | Some d \<Rightarrow>
             if ltype lesson = Video \<and> d \<noteq> 0 then
               (let pct = js_min (js_round (js_times (js_div (watchTime p2) d) 100)) 100;
                    p3 = p2\<lparr>completionPercentage := pct\<rparr>
                in if js_ge pct (or_default (requiredWatchTime lesson) 80)
                      \<and> status p3 \<noteq> Completed
                   then p3\<lparr>status := Completed, completedAt := Some now\<rparr>
                   else if js_gt pct 0 \<and> status p3 = NotStarted
                   then p3\<lparr>status := InProgress\<rparr>
                   else p3)
             else p2)"

definition addBookmark :: "rat \<Rightarrow> string \<Rightarrow> progress \<Rightarrow> progress" where
  "addBookmark ts txt p =
     p\<lparr>bookmarks := bookmarks p @ [\<lparr>bm_timestamp = ts, bm_note = txt\<rparr>]\<rparr>"

definition addNote :: "string \<Rightarrow> rat option \<Rightarrow> bool \<Rightarrow> progress \<Rightarrow> progress" where
  "addNote c ts priv p =
     p\<lparr>lesson_notes := lesson_notes p @ [\<lparr>content = c, note_timestamp = ts, isPrivate = priv\<rparr>]\<rparr>"

text \<open>\<^verbatim>\<open>questions.reduce((total, q) => total + (q.points || 1), 0)\<close>.\<close>

definition totalPossibleScore :: "question list \<Rightarrow> rat" where
  "totalPossibleScore qs = fold (\<lambda>q total. total + or_default (points q) 1) qs 0"

text \<open>\<^verbatim>\<open>Math.round((score / totalPossibleScore) * 100)\<close>.\<close>

definition attemptPercentage :: "lesson \<Rightarrow> rat \<Rightarrow> jsnum" where
  "attemptPercentage lesson sc =
     js_round (js_times (js_div sc (totalPossibleScore (quiz_questions lesson))) 100)"

definition recordQuizAttempt ::
  "lesson \<Rightarrow> nat \<Rightarrow> graded_answer list \<Rightarrow> rat \<Rightarrow> rat \<Rightarrow> progress \<Rightarrow> progress" where
  "recordQuizAttempt lesson now ans sc spent p =
     (let n = length (quiz_attempts p) + 1;
          pct = attemptPercentage lesson sc;
          a = \<lparr>attemptNumber = n, answers = ans, score = sc, percentage = pct,
               att_completedAt = now, timeSpent = spent\<rparr>;
          p1 = p\<lparr>quiz_attempts := quiz_attempts p @ [a]\<rparr>;
          p2 = (if sc > quiz_highestScore p1
                then p1\<lparr>quiz_highestScore := sc, quiz_bestAttempt := Some n\<rparr>
                else p1);
          passingScore = or_default (quiz_passingScore lesson) 70;
          p3 = p2\<lparr>quiz_passed := js_ge pct passingScore\<rparr>
      in if quiz_passed p3
         then p3\<lparr>status := Completed, completedAt := Some now,
                 completionPercentage := Num 100\<rparr>
         else if status p3 = NotStarted
         then p3\<lparr>status := InProgress, completionPercentage := js_min pct 99\<rparr>
         else p3)"

text \<open>
  The explicit status update of the controller \<^verbatim>\<open>updateLessonProgress\<close>
  (\<^verbatim>\<open>else if (status) { progress.status = status; ... }\<close>).
\<close>

definition updateStatus :: "nat \<Rightarrow> progress_status \<Rightarrow> progress \<Rightarrow> progress" where
  "updateStatus now st p =
     (let p1 = p\<lparr>status := st\<rparr>
      in if st = Completed
         then p1\<lparr>completedAt := Some now, completionPercentage := Num 100\<rparr>
         else p1)"

section \<open>Quiz grading (controller updateLessonProgress)\<close>

text \<open>
  \<^verbatim>\<open>JSON.stringify\<close> on answer values. A string is quoted as \<^verbatim>\<open>QuoteJSONString\<close> does:
  the quotation mark and the backslash are escaped, the control characters below
  \<open>0x20\<close> become \<^verbatim>\<open>\b \f \n \r \t\<close> or \<^verbatim>\<open>\u00XX\<close>, every other character stands for
  itself. An array is its elements' texts, separated by commas, in brackets.
\<close>

definition hex_digit :: "nat \<Rightarrow> char" where
  "hex_digit n = ''0123456789abcdef'' ! n"

definition quote_char :: "char \<Rightarrow> string" where
  "quote_char c =
     (if c = CHR 0x22 then [CHR 0x5C, CHR 0x22]
      else if c = CHR 0x5C then [CHR 0x5C, CHR 0x5C]
      else if c = CHR 0x08 then [CHR 0x5C, CHR ''b'']
      else if c = CHR 0x0C then [CHR 0x5C, CHR ''f'']
      else if c = CHR 0x0A then [CHR 0x5C, CHR ''n'']
      else if c = CHR 0x0D then [CHR 0x5C, CHR ''r'']
      else if c = CHR 0x09 then [CHR 0x5C, CHR ''t'']
      else if (of_char c :: nat) < 32
        then [CHR 0x5C, CHR ''u'', CHR ''0'', CHR ''0'',
              hex_digit (of_char c div 16), hex_digit (of_char c mod 16)]
      else [c])"

definition QuoteJSONString :: "string \<Rightarrow> string" where
  "QuoteJSONString s = CHR 0x22 # concat (map quote_char s) @ [CHR 0x22]"

definition digit_char :: "nat \<Rightarrow> char" where
  "digit_char n = ''0123456789'' ! n"

fun show_nat :: "nat \<Rightarrow> string" where
  "show_nat n = (if n < 10 then [digit_char n] else show_nat (n div 10) @ [digit_char (n mod 10)])"

definition show_int :: "int \<Rightarrow> string" where
  "show_int i = (if i < 0 then CHR ''-'' # show_nat (nat (- i)) else show_nat (nat i))"

declare show_nat.simps [simp del]

fun join :: "string \<Rightarrow> string list \<Rightarrow> string" where
  "join sep [] = []"
| "join sep [x] = x"
| "join sep (x # y # ys) = x @ sep @ join sep (y # ys)"

fun JSON_stringify :: "jsval \<Rightarrow> string" where
  "JSON_stringify JNull = ''null''"
| "JSON_stringify (JBool b) = (if b then ''true'' else ''false'')"
| "JSON_stringify (JNum i) = show_int i"
| "JSON_stringify (JStr s) = QuoteJSONString s"
| "JSON_stringify (JArr xs) = ''['' @ join '','' (map JSON_stringify xs) @ '']''"

text \<open>
  \<^verbatim>\<open>JSON.stringify(answer.answer) === JSON.stringify(question.correctAnswer)\<close>;
  \<^verbatim>\<open>JSON.stringify(undefined)\<close> is \<^verbatim>\<open>undefined\<close>.
\<close>

definition answerMatches :: "jsval option \<Rightarrow> jsval option \<Rightarrow> bool" where
  "answerMatches a c = (map_option JSON_stringify a = map_option JSON_stringify c)"

datatype error = TypeError | CastError

text \<open>
  The callback of \<^verbatim>\<open>quizAnswers.map((answer, index) => ...)\<close> with the running
  \<^verbatim>\<open>score\<close>; \<^verbatim>\<open>questions[index]\<close> past the end is \<^verbatim>\<open>undefined\<close>, and reading its
  \<^verbatim>\<open>correctAnswer\<close> throws.
\<close>

fun gradeAnswers ::
  "question list \<Rightarrow> nat \<Rightarrow> jsval option list \<Rightarrow> rat \<Rightarrow> error + (graded_answer list \<times> rat)" where
  "gradeAnswers qs index [] sc = Inr ([], sc)"
| "gradeAnswers qs index (a # rest) sc =
     (if index < length qs then
        (let q = qs ! index;
             correct = answerMatches a (correctAnswer q);
             sc' = (if correct then sc + or_default (points q) 1 else sc);
             g = \<lparr>questionId = q_id q, answer = a, isCorrect = correct,
                  ans_points = (if correct then or_default (points q) 1 else 0)\<rparr>
         in case gradeAnswers qs (index + 1) rest sc' of
              Inl e \<Rightarrow> Inl e
            | Inr (gs, final) \<Rightarrow> Inr (g # gs, final))
      else Inl TypeError)"

text \<open>
  Grading by plain equality of the submitted and the correct answer, the reading of
  "exact structural equality": what \<open>gradeAnswers\<close> is compared with.
\<close>

definition graded_by_equality :: "question \<Rightarrow> jsval option \<Rightarrow> graded_answer" where
  "graded_by_equality q a =
     \<lparr>questionId = q_id q, answer = a, isCorrect = (a = correctAnswer q),
      ans_points = (if a = correctAnswer q then or_default (points q) 1 else 0)\<rparr>"

text \<open>
  Notions for reading a JSON text back: the value of a decimal numeral, the characters
  a numeral is made of, a rest of text before which a numeral ends, and the characters
  \<open>quote_char\<close> escapes.
\<close>

definition digit_val :: "char \<Rightarrow> nat" where
  "digit_val c = of_char c - 48"

definition nat_of_digits :: "string \<Rightarrow> nat" where
  "nat_of_digits s = foldl (\<lambda>acc c. 10 * acc + digit_val c) 0 s"

definition is_digit :: "char \<Rightarrow> bool" where
  "is_digit c = (c \<in> set ''0123456789'')"

definition ends_number :: "string \<Rightarrow> bool" where
  "ends_number r = (case r of [] \<Rightarrow> True | c # _ \<Rightarrow> \<not> is_digit c)"

definition escaped :: "char \<Rightarrow> bool" where
  "escaped c = (c = CHR 0x22 \<or> c = CHR 0x5C \<or> (of_char c :: nat) < 32)"

section \<open>Enrollment (enrollmentSchema)\<close>

datatype enrollment_status = Active | CourseCompleted | Dropped | Suspended

text \<open>
  A lesson id reaches the model as the text of the request. Mongoose casts it to an
  \<^verbatim>\<open>ObjectId\<close> where the schema says so: 24 hexadecimal digits, in either case, and
  \<^verbatim>\<open>toString()\<close> of the \<^verbatim>\<open>ObjectId\<close> gives the digits back in lower case. The ids stored
  in documents are such lower-case texts. A text of another form is refused here (the
  \<^verbatim>\<open>CastError\<close> of Mongoose; the twelve-byte form that the driver reads as well is left
  out). The controller passes on only ids that \<^verbatim>\<open>Lesson.findById\<close> has accepted.
\<close>

definition lower_hex :: "char \<Rightarrow> char option" where
  "lower_hex = map_of (zip ''0123456789abcdefABCDEF'' ''0123456789abcdefabcdef'')"

definition castObjectId :: "string \<Rightarrow> string option" where
  "castObjectId s = (if length s = 24 then those (map lower_hex s) else None)"

text \<open>
  An entry of \<^verbatim>\<open>progress.completedLessons\<close>. Its \<open>lesson\<close> is the cast id, and is unset
  when the cast failed: Mongoose then keeps the entry without the field and records
  the \<^verbatim>\<open>CastError\<close> for the next validation.
\<close>

record completed_lesson =
  cl_lesson :: "string option"
  cl_completedAt :: nat
  cl_watchTime :: rat
  cl_score :: "rat option"

text \<open>
  The enrollment's \<open>completionPercentage\<close> only ever holds the schema default \<open>0\<close> or a
  result of \<^verbatim>\<open>Math.round\<close> on a quotient with a positive divisor: an integer.
\<close>

record enrollment =
  enr_id :: string
  student :: string
  course :: string
  enr_status :: enrollment_status
  completedLessons :: "completed_lesson list"
  currentLesson :: "string option"
  enr_completionPercentage :: int
  enr_lastAccessedAt :: nat
  completionDate :: "nat option"
  certificateIssued :: bool
  certificateId :: "string option"

text \<open>
  What a method call leaves behind: the document in memory, whether \<^verbatim>\<open>save()\<close> has
  stored it, and the error with which the call was rejected, if it was.
\<close>

record 'd outcome =
  document :: 'd
  persisted :: bool
  thrown :: "error option"

text \<open>
  \<^verbatim>\<open>save()\<close> validates before it stores: \<open>completionPercentage\<close> has \<^verbatim>\<open>min: 0\<close> and
  \<^verbatim>\<open>max: 100\<close>, and an entry whose lesson id could not be cast fails.
\<close>

definition validates :: "enrollment \<Rightarrow> bool" where
  "validates e =
     (0 \<le> enr_completionPercentage e \<and> enr_completionPercentage e \<le> 100
      \<and> list_all (\<lambda>cl. cl_lesson cl \<noteq> None) (completedLessons e))"

text \<open>
  The method \<^verbatim>\<open>updateProgress\<close>; the lesson collection and the clock are parameters.
  A rejected \<^verbatim>\<open>save()\<close> is caught and logged: the call itself is never rejected, and the
  document in memory keeps what was assigned. With no published lesson nothing is
  assigned and nothing is saved.
\<close>

definition updateProgress :: "lesson list \<Rightarrow> nat \<Rightarrow> enrollment \<Rightarrow> enrollment outcome" where
  "updateProgress db now e =
     (let totalLessons = countPublished db (course e)
      in if totalLessons > 0 then
           (let completedCount = length (completedLessons e);
                e1 = e\<lparr>enr_completionPercentage := percent completedCount totalLessons\<rparr>;
                e2 = (if enr_completionPercentage e1 \<ge> 100 \<and> enr_status e1 = Active
                      then e1\<lparr>enr_status := CourseCompleted, completionDate := Some now\<rparr>
                      else e1);
                e3 = e2\<lparr>enr_lastAccessedAt := now\<rparr>
            in \<lparr>document = e3, persisted = validates e3, thrown = None\<rparr>)
         else \<lparr>document = e, persisted = False, thrown = None\<rparr>)"

text \<open>
  \<^verbatim>\<open>completedLessons.find(cl => cl.lesson.toString() === lessonId.toString())\<close>: the
  stored ids against the text as it was passed; \<^verbatim>\<open>toString\<close> of an unset lesson throws.
\<close>

fun find_completed :: "completed_lesson list \<Rightarrow> string \<Rightarrow> error + completed_lesson option" where
  "find_completed [] lessonId = Inr None"
| "find_completed (cl # rest) lessonId =
     (case cl_lesson cl of
        None \<Rightarrow> Inl TypeError
      | Some stored \<Rightarrow> if stored = lessonId then Inr (Some cl) else find_completed rest lessonId)"

text \<open>
  The method \<^verbatim>\<open>markLessonCompleted\<close>, with \<open>wt\<close> and \<open>sc\<close> the arguments after their
  defaults (\<open>0\<close> and \<^verbatim>\<open>null\<close>). The entry is pushed before the lesson is looked up, with the
  id as Mongoose casts it; \<^verbatim>\<open>currentLesson.getNextLesson()\<close> on a lesson that
  \<^verbatim>\<open>findById\<close> did not find (\<^verbatim>\<open>null\<close>) throws, and the pushed entry stays in the
  document in memory.
\<close>

definition markLessonCompleted ::
  "lesson list \<Rightarrow> nat \<Rightarrow> string \<Rightarrow> rat \<Rightarrow> rat option \<Rightarrow> enrollment \<Rightarrow> enrollment outcome" where
  "markLessonCompleted db now lessonId wt sc e =
     (case find_completed (completedLessons e) lessonId of
        Inl err \<Rightarrow> \<lparr>document = e, persisted = False, thrown = Some err\<rparr>
      | Inr (Some existingProgress) \<Rightarrow> \<lparr>document = e, persisted = False, thrown = None\<rparr>
      | Inr None \<Rightarrow>
          (let e1 = e\<lparr>completedLessons := completedLessons e @
                        [\<lparr>cl_lesson = castObjectId lessonId, cl_completedAt = now,
                          cl_watchTime = wt, cl_score = sc\<rparr>]\<rparr>
           in case castObjectId lessonId of
                None \<Rightarrow> \<lparr>document = e1, persisted = False, thrown = Some CastError\<rparr>
              | Some oid \<Rightarrow>
                  (case findById db oid of
                     None \<Rightarrow> \<lparr>document = e1, persisted = False, thrown = Some TypeError\<rparr>
                   | Some cur \<Rightarrow>
                       (let e2 = (case getNextLesson db cur of
                                    Some nextLesson \<Rightarrow>
                                      e1\<lparr>currentLesson := Some (lesson_id nextLesson)\<rparr>
                                  | None \<Rightarrow> e1)
                        in updateProgress db now e2))))"

text \<open>
  The method \<^verbatim>\<open>generateCertificate\<close>: the id is \<^verbatim>\<open>`CERT-${Date.now()}-${this._id}`\<close>;
  it returns the id, or \<^verbatim>\<open>null\<close>.
\<close>

definition generateCertificate :: "nat \<Rightarrow> enrollment \<Rightarrow> enrollment \<times> string option" where
  "generateCertificate now e =
     (if enr_status e = CourseCompleted \<and> \<not> certificateIssued e then
        (let e1 = e\<lparr>certificateId := Some (''CERT-'' @ show_nat now @ ''-'' @ enr_id e)\<rparr>;
             e2 = e1\<lparr>certificateIssued := True\<rparr>
         in (e2, certificateId e2))
      else (e, None))"

text \<open>
  The controller \<^verbatim>\<open>generateCertificate\<close> (POST /api/enrollments/:id/certificate). Its
  input is what \<^verbatim>\<open>findById(...).populate('course').populate('student')\<close> returned: the
  enrollment with its course and its student's id, each \<^verbatim>\<open>null\<close> when the referenced
  document is gone (reading a field of \<^verbatim>\<open>null\<close> throws, which the error handler
  answers). The result is the response and the enrollment document after the request.
\<close>

record course_doc =
  certificate_enabled :: bool

record populated_enrollment =
  doc :: enrollment
  pop_course :: "course_doc option"
  pop_student :: "string option"

record req_user =
  user_id :: string
  role :: string

datatype response = Status404 | Status403 | Status400 string | Status200 string | Status500

definition generateCertificate_handler ::
  "populated_enrollment option \<Rightarrow> req_user \<Rightarrow> nat \<Rightarrow> response \<times> enrollment option" where
  "generateCertificate_handler found u now =
     (case found of
        None \<Rightarrow> (Status404, None)
      | Some pe \<Rightarrow>
          (case pop_student pe of
             None \<Rightarrow> (Status500, Some (doc pe))
           | Some sid \<Rightarrow>
               if sid \<noteq> user_id u \<and> role u \<noteq> ''admin'' then (Status403, Some (doc pe))
               else if enr_status (doc pe) \<noteq> CourseCompleted then
                 (Status400 ''Course must be completed to generate certificate'', Some (doc pe))
               else
                 (case pop_course pe of
                    None \<Rightarrow> (Status500, Some (doc pe))
                  | Some c \<Rightarrow>
                      if \<not> certificate_enabled c then
                        (Status400 ''Certificates are not enabled for this course'', Some (doc pe))
                      else
                        (case generateCertificate now (doc pe) of
                           (e', None) \<Rightarrow>
                             (Status400 ''Certificate already exists or could not be generated'',
                              Some e')
                         | (e', Some cid) \<Rightarrow>
                             if cid = [] then
                               (Status400 ''Certificate already exists or could not be generated'',
                                Some e')
                             else (Status200 cid, Some e')))))"

section \<open>Recording progress (controller updateLessonProgress)\<close>

text \<open>
  The controller looks the lesson up and reads \<^verbatim>\<open>lesson.type\<close> from it, but the progress
  document that it finds or creates holds its lesson as an \<^verbatim>\<open>ObjectId\<close>: nothing
  populates it. Inside the two methods \<^verbatim>\<open>this.lesson.type\<close> and \<^verbatim>\<open>this.lesson.content\<close>
  are then \<^verbatim>\<open>undefined\<close>: \<^verbatim>\<open>updateWatchTime\<close> records the watch time and skips the
  percentage, and \<^verbatim>\<open>recordQuizAttempt\<close> throws on \<^verbatim>\<open>this.lesson.content.quiz\<close> before it
  assigns anything.
\<close>

definition updateWatchTime_unpopulated :: "rat \<Rightarrow> progress \<Rightarrow> progress" where
  "updateWatchTime_unpopulated seconds p =
     (let p1 = p\<lparr>watchTime := max (watchTime p) seconds\<rparr>
      in p1\<lparr>totalWatchTime := totalWatchTime p1 + seconds\<rparr>)"

definition recordQuizAttempt_unpopulated ::
  "graded_answer list \<Rightarrow> rat \<Rightarrow> rat \<Rightarrow> progress \<Rightarrow> error + progress" where
  "recordQuizAttempt_unpopulated ans sc spent p = Inl TypeError"

text \<open>
  The request: \<^verbatim>\<open>req.params.id\<close>, \<^verbatim>\<open>req.user.id\<close> and the fields of \<^verbatim>\<open>req.body\<close>, absent
  ones \<open>None\<close>. The answer: the status code of the response, or the error with which
  the handler is rejected (it goes to the error middleware); the progress document in
  memory; and what \<open>markLessonCompleted\<close> left behind, when it was called.
\<close>

record progress_request =
  params_id :: string
  req_user_id :: string
  body_watchTime :: "rat option"
  body_status :: "progress_status option"
  body_quizAnswers :: "jsval option list option"
  body_timeSpent :: "rat option"

datatype reply = Replied nat | Rejected error

record progress_response =
  res_reply :: reply
  res_progress :: "progress option"
  res_enrollment :: "enrollment outcome option"

text \<open>
  The controller \<^verbatim>\<open>updateLessonProgress\<close> (POST /api/lessons/:id/progress). The lesson
  collection, the active enrollment that \<^verbatim>\<open>Enrollment.findOne\<close> returned and the progress
  that \<^verbatim>\<open>Progress.findOne\<close> returned are parameters. The check
  \<^verbatim>\<open>!enrollment && lesson.course.price > 0\<close> never refuses: \<^verbatim>\<open>lesson.course\<close> is an
  \<^verbatim>\<open>ObjectId\<close>, its \<^verbatim>\<open>price\<close> is \<^verbatim>\<open>undefined\<close>. \<open>markLessonCompleted\<close> receives the id as the
  request has it, and \<^verbatim>\<open>watchTime\<close> with the default \<open>0\<close>.
\<close>

definition updateLessonProgress ::
  "lesson list \<Rightarrow> enrollment option \<Rightarrow> progress option \<Rightarrow> nat \<Rightarrow> progress_request
     \<Rightarrow> progress_response" where
  "updateLessonProgress db enrollment found now req =
     (case castObjectId (params_id req) of
        None \<Rightarrow> \<lparr>res_reply = Rejected CastError, res_progress = None, res_enrollment = None\<rparr>
      | Some oid \<Rightarrow>
          (case findById db oid of
             None \<Rightarrow> \<lparr>res_reply = Replied 404, res_progress = None, res_enrollment = None\<rparr>
           | Some lesson \<Rightarrow>
               (let progress =
                      (case found of
                         Some p \<Rightarrow> p
                       | None \<Rightarrow> new_Progress (req_user_id req) (lesson_course lesson) oid now);
                    updated =
                      (case (ltype lesson, body_watchTime req, body_quizAnswers req,
                             body_status req) of
                         (Video, Some seconds, _, _) \<Rightarrow>
                           Inr (updateWatchTime_unpopulated seconds progress)
                       | (Quiz, _, Some quizAnswers, _) \<Rightarrow>
                           (case gradeAnswers (quiz_questions lesson) 0 quizAnswers 0 of
                              Inl err \<Rightarrow> Inl err
                            | Inr (ans, sc) \<Rightarrow>
                                recordQuizAttempt_unpopulated ans sc
                                  (or_default (body_timeSpent req) 0) progress)
                       | (_, _, _, Some st) \<Rightarrow> Inr (updateStatus now st progress)
                       | _ \<Rightarrow> Inr progress)
                in case updated of
                     Inl err \<Rightarrow>
                       \<lparr>res_reply = Rejected err, res_progress = Some progress,
                        res_enrollment = None\<rparr>
                   | Inr p \<Rightarrow>
                       (case enrollment of
                          None \<Rightarrow>
                            \<lparr>res_reply = Replied 200, res_progress = Some p,
                             res_enrollment = None\<rparr>
                        | Some e \<Rightarrow>
                            if status p = Completed then
                              (let marked = markLessonCompleted db now (params_id req)
                                              (case body_watchTime req of
                                                 Some seconds \<Rightarrow> seconds
                                               | None \<Rightarrow> 0)
                                              None e
                               in \<lparr>res_reply = (case thrown marked of
                                                  Some err \<Rightarrow> Rejected err
                                                | None \<Rightarrow> Replied 200),
                                   res_progress = Some p, res_enrollment = Some marked\<rparr>)
                            else \<lparr>res_reply = Replied 200, res_progress = Some p,
                                  res_enrollment = None\<rparr>))))"

text \<open>
  The controller \<^verbatim>\<open>updateEnrollmentStatus\<close> (PUT /api/enrollments/:id/status): a student
  may only drop an own enrollment; an instructor or admin sets any status.
\<close>

definition updateEnrollmentStatus ::
  "enrollment option \<Rightarrow> req_user \<Rightarrow> enrollment_status \<Rightarrow> response \<times> enrollment option" where
  "updateEnrollmentStatus found u st =
     (case found of
        None \<Rightarrow> (Status404, None)
      | Some e \<Rightarrow>
          if role u = ''student'' \<and> (student e \<noteq> user_id u \<or> st \<noteq> Dropped)
          then (Status403, Some e)
          else (Status200 ''Enrollment status updated'', Some (e\<lparr>enr_status := st\<rparr>)))"

section \<open>Analytics (progressSchema.statics.getUserCourseProgress)\<close>

record course_progress =
  totalLessons :: nat
  n_completedLessons :: nat
  overallProgress :: int
  progressData :: "progress list"
  last_accessed :: jsnum

definition getUserCourseProgress ::
  "lesson list \<Rightarrow> progress list \<Rightarrow> string \<Rightarrow> string \<Rightarrow> course_progress" where
  "getUserCourseProgress lessonDb progressDb userId courseId =
     (let lessons = sort_key order
                      (filter (\<lambda>l. lesson_course l = courseId \<and> isPublished l) lessonDb);
          pd = filter (\<lambda>p. p_user p = userId \<and> p_course p = courseId) progressDb;
          n = length lessons;
          k = length (filter (\<lambda>p. status p = Completed) pd)
      in \<lparr>totalLessons = n,
          n_completedLessons = k,
          overallProgress = (if n > 0 then percent k n else 0),
          progressData = pd,
          last_accessed = Math_max (map (\<lambda>p. Num (of_nat (lastAccessedAt p))) pd)\<rparr>)"

section \<open>Sequences of calls, and the record invariant\<close>

text \<open>The documents after each of a sequence of \<open>updateWatchTime\<close> calls on one progress.\<close>

fun updateWatchTimes :: "lesson \<Rightarrow> (nat \<times> rat) list \<Rightarrow> progress \<Rightarrow> progress list" where
  "updateWatchTimes lesson [] p = []"
| "updateWatchTimes lesson ((now, s) # calls) p =
     updateWatchTime lesson now s p # updateWatchTimes lesson calls (updateWatchTime lesson now s p)"

text \<open>A sequence of quiz attempts on one progress: the document after the last.\<close>

fun recordQuizAttempts ::
  "lesson \<Rightarrow> (nat \<times> graded_answer list \<times> rat \<times> rat) list \<Rightarrow> progress \<Rightarrow> progress" where
  "recordQuizAttempts lesson [] p = p"
| "recordQuizAttempts lesson ((now, ans, sc, spent) # calls) p =
     recordQuizAttempts lesson calls (recordQuizAttempt lesson now ans sc spent p)"

text \<open>\<^verbatim>\<open>x <= y\<close>; a percentage is non-decreasing when it stays or \<^verbatim>\<open><=\<close> holds.\<close>

fun js_le :: "jsnum \<Rightarrow> jsnum \<Rightarrow> bool" where
  "js_le NaN y = False"
| "js_le x NaN = False"
| "js_le NegInfinity y = True"
| "js_le x PosInfinity = True"
| "js_le (Num a) (Num b) = (a \<le> b)"
| "js_le x y = False"

definition nondecreasing :: "jsnum \<Rightarrow> jsnum \<Rightarrow> bool" where
  "nondecreasing x y = (x = y \<or> js_le x y)"

text \<open>The operations of the progress tracker, for statements about all of them.\<close>

datatype progress_op =
    RecordWatchTime rat
  | RecordQuizAttempt "graded_answer list" rat rat
  | AddBookmark rat string
  | AddNote string "rat option" bool
  | UpdateStatus progress_status

fun perform :: "lesson \<Rightarrow> nat \<Rightarrow> progress_op \<Rightarrow> progress \<Rightarrow> progress" where
  "perform lesson now (RecordWatchTime s) p = updateWatchTime lesson now s p"
| "perform lesson now (RecordQuizAttempt ans sc spent) p = recordQuizAttempt lesson now ans sc spent p"
| "perform lesson now (AddBookmark ts txt) p = addBookmark ts txt p"
| "perform lesson now (AddNote c ts priv) p = addNote c ts priv p"
| "perform lesson now (UpdateStatus st) p = updateStatus now st p"

text \<open>
  The invariant of a lesson progress: \<open>completedAt\<close> is set exactly when the status is
  completed, the accumulated watch time is at least the high-water mark, and the quiz
  attempts are numbered 1, 2, 3, ... in order.
\<close>

definition lp_invariant :: "progress \<Rightarrow> bool" where
  "lp_invariant p =
     (((completedAt p \<noteq> None) = (status p = Completed))
      \<and> watchTime p \<le> totalWatchTime p
      \<and> map attemptNumber (quiz_attempts p) = [1 ..< Suc (length (quiz_attempts p))])"

text \<open>
  The calls under which the invariant is kept: a watch-time report that is not negative,
  and a status update either to completed or on a progress that is not completed.
\<close>

fun within_contract :: "progress_op \<Rightarrow> progress \<Rightarrow> bool" where
  "within_contract (RecordWatchTime s) p = (0 \<le> s)"
| "within_contract (UpdateStatus st) p = (st = Completed \<or> status p \<noteq> Completed)"
| "within_contract opr p = True"

section \<open>Sample documents\<close>

definition video_lesson :: lesson where
  "video_lesson =
     \<lparr>lesson_id = ''L1'', lesson_course = ''C1'', order = 1, isPublished = True,
      ltype = Video, video_duration = Some 200, requiredWatchTime = Some 80,
      quiz_questions = [], quiz_passingScore = None\<rparr>"

definition text_lesson :: lesson where
  "text_lesson =
     \<lparr>lesson_id = ''L2'', lesson_course = ''C1'', order = 2, isPublished = True,
      ltype = Text, video_duration = None, requiredWatchTime = None,
      quiz_questions = [], quiz_passingScore = None\<rparr>"

definition quiz_lesson :: lesson where
  "quiz_lesson =
     \<lparr>lesson_id = ''L3'', lesson_course = ''C1'', order = 3, isPublished = True,
      ltype = Quiz, video_duration = None, requiredWatchTime = None,
      quiz_questions =
        [\<lparr>q_id = ''q1'', correctAnswer = Some (JStr ''a''), points = Some 1\<rparr>,
         \<lparr>q_id = ''q2'', correctAnswer = Some (JArr [JStr ''a'', JStr ''b'']), points = Some 2\<rparr>,
         \<lparr>q_id = ''q3'', correctAnswer = Some (JNum 3), points = Some 3\<rparr>],
      quiz_passingScore = Some 70\<rparr>"

definition fresh :: progress where
  "fresh = new_Progress ''u1'' ''C1'' ''L1'' 1000"

definition live_lesson :: lesson where
  "live_lesson =
     \<lparr>lesson_id = ''L4'', lesson_course = ''C1'', order = 4, isPublished = True,
      ltype = Live, video_duration = None, requiredWatchTime = None,
      quiz_questions = [], quiz_passingScore = None\<rparr>"

definition course_lessons :: "lesson list" where
  "course_lessons = [video_lesson, text_lesson, quiz_lesson, live_lesson]"

definition enrolled :: enrollment where
  "enrolled =
     \<lparr>enr_id = ''E1'', student = ''u1'', course = ''C1'', enr_status = Active,
      completedLessons = [], currentLesson = None, enr_completionPercentage = 0,
      enr_lastAccessedAt = 1000, completionDate = None, certificateIssued = False,
      certificateId = None\<rparr>"

definition done_lesson :: "string \<Rightarrow> completed_lesson" where
  "done_lesson lid =
     \<lparr>cl_lesson = Some lid, cl_completedAt = 1500, cl_watchTime = 0, cl_score = None\<rparr>"

definition finished :: enrollment where
  "finished = enrolled\<lparr>enr_status := CourseCompleted, enr_completionPercentage := 100,
                        completionDate := Some 1900\<rparr>"

definition learner :: req_user where
  "learner = \<lparr>user_id = ''u1'', role = ''student''\<rparr>"

definition populated :: "enrollment \<Rightarrow> populated_enrollment" where
  "populated e =
     \<lparr>doc = e, pop_course = Some \<lparr>certificate_enabled = True\<rparr>, pop_student = Some (student e)\<rparr>"

definition certified :: enrollment where
  "certified = finished\<lparr>certificateId := Some ''CERT-2000-E1'', certificateIssued := True\<rparr>"

text \<open>
  A course of four published lessons under ids as the database has them, the same
  course with one published lesson and with none, and a course of forty lessons.
\<close>

definition lesson_a :: lesson where
  "lesson_a = video_lesson\<lparr>lesson_id := ''65f0c0ffee0000000000000a''\<rparr>"

definition lesson_b :: lesson where
  "lesson_b = text_lesson\<lparr>lesson_id := ''65f0c0ffee0000000000000b''\<rparr>"

definition lesson_c :: lesson where
  "lesson_c = quiz_lesson\<lparr>lesson_id := ''65f0c0ffee0000000000000c''\<rparr>"

definition lesson_d :: lesson where
  "lesson_d = live_lesson\<lparr>lesson_id := ''65f0c0ffee0000000000000d''\<rparr>"

definition catalog :: "lesson list" where
  "catalog = [lesson_a, lesson_b, lesson_c, lesson_d]"

definition one_published :: "lesson list" where
  "one_published = [lesson_a, lesson_b\<lparr>isPublished := False\<rparr>]"

definition none_published :: "lesson list" where
  "none_published = [lesson_a\<lparr>isPublished := False\<rparr>, lesson_b\<lparr>isPublished := False\<rparr>]"

definition numbered_id :: "nat \<Rightarrow> string" where
  "numbered_id i = ''65f0c0ffee000000000000'' @ [digit_char (i div 10), digit_char (i mod 10)]"

definition numbered_lesson :: "nat \<Rightarrow> lesson" where
  "numbered_lesson i = text_lesson\<lparr>lesson_id := numbered_id i, order := int i\<rparr>"

definition forty_lessons :: "lesson list" where
  "forty_lessons = map numbered_lesson [0 ..< 40]"

definition admin :: req_user where
  "admin = \<lparr>user_id = ''u9'', role = ''admin''\<rparr>"

definition short_video :: lesson where
  "short_video = video_lesson\<lparr>video_duration := Some 40\<rparr>"

definition reversed_video :: lesson where
  "reversed_video = video_lesson\<lparr>video_duration := Some (- 200)\<rparr>"

text \<open>
  An enrollment that completed the one published lesson, was set back to active by an
  admin, and then completes the other lesson when no lesson is published any more.
\<close>

definition completed_once :: "enrollment outcome" where
  "completed_once =
     markLessonCompleted one_published 2000 ''65f0c0ffee0000000000000a'' 0 None enrolled"

definition reactivated :: enrollment where
  "reactivated = (document completed_once)\<lparr>enr_status := Active\<rparr>"

definition pending :: enrollment where
  "pending =
     document (markLessonCompleted none_published 3000 ''65f0c0ffee0000000000000b'' 0 None
                 reactivated)"

text \<open>An enrollment with the first 22 of the forty lessons completed.\<close>

definition twenty_two_done :: enrollment where
  "twenty_two_done =
     enrolled\<lparr>completedLessons := map (\<lambda>i. done_lesson (numbered_id i)) [0 ..< 22],
              currentLesson := Some (numbered_id 22),
              enr_completionPercentage := 55\<rparr>"

text \<open>The same lesson marked completed twice, under its id in upper case.\<close>

definition marked_once :: "enrollment outcome" where
  "marked_once = markLessonCompleted catalog 2000 ''65F0C0FFEE0000000000000A'' 0 None enrolled"

definition marked_twice :: "enrollment outcome" where
  "marked_twice =
     markLessonCompleted catalog 3000 ''65F0C0FFEE0000000000000A'' 0 None (document marked_once)"

definition watch_request :: "string \<Rightarrow> rat \<Rightarrow> progress_request" where
  "watch_request lid seconds =
     \<lparr>params_id = lid, req_user_id = ''u1'', body_watchTime = Some seconds,
      body_status = None, body_quizAnswers = None, body_timeSpent = None\<rparr>"

definition status_request :: "string \<Rightarrow> progress_status \<Rightarrow> progress_request" where
  "status_request lid st =
     \<lparr>params_id = lid, req_user_id = ''u1'', body_watchTime = None,
      body_status = Some st, body_quizAnswers = None, body_timeSpent = None\<rparr>"

section \<open>Rounding to double\<close>

text \<open>
  The exponent brackets its argument, so that \<open>fl\<close> rounds within one binade; from
  this, rounding is monotone, and on the normal range its error is at most the
  fraction \<open>2 ^ - 53\<close> of the value.
\<close>

lemma expo_bounds:
  assumes "0 < x"
  shows "2 powi expo x \<le> x" and "x < 2 powi (expo x + 1)"
proof -
  have *: "2 powi expo x \<le> x \<and> x < 2 powi (expo x + 1)"
  proof (cases "1 \<le> x")
    case True
    define n where "n = \<lfloor>x\<rfloor>"
    have n: "1 \<le> n" "of_int n \<le> x" "x < of_int n + 1"
      using True floor_correct [of x] by (simp_all add: n_def le_floor_iff)
    then have pos: "0 < n" by simp
    from bitlen_bounds [OF pos] have b: "2 ^ nat (bitlen n - 1) \<le> n" "n < 2 ^ nat (bitlen n)"
      by simp_all
    have b1: "1 \<le> bitlen n"
      using pos bitlen_eq_zero_iff [of n] bitlen_nonneg [of n] by linarith
    have e: "expo x = bitlen n - 1"
      using True by (simp add: expo_def n_def)
    have "(2::rat) powi (bitlen n - 1) = of_int (2 ^ nat (bitlen n - 1))"
      using b1 by (simp add: power_int_nonneg_exp)
    also have "\<dots> \<le> of_int n" using b(1) by (simp only: of_int_le_iff)
    also have "\<dots> \<le> x" by (rule n(2))
    finally have lower: "2 powi expo x \<le> x" by (simp add: e)
    have "n + 1 \<le> 2 ^ nat (bitlen n)" using b(2) by simp
    then have "(of_int (n + 1) :: rat) \<le> of_int (2 ^ nat (bitlen n))"
      by (simp only: of_int_le_iff)
    then have "of_int n + 1 \<le> (2::rat) powi (bitlen n)"
      using b1 by (simp add: power_int_nonneg_exp)
    with n(3) have "x < 2 powi (expo x + 1)" by (simp add: e)
    with lower show ?thesis by simp
  next
    case False
    define y where "y = 1 / x"
    define n where "n = \<lfloor>y\<rfloor>"
    define k where "k = bitlen n - 1"
    have y: "1 < y" "0 < y" using assms False by (simp_all add: y_def)
    have n: "1 \<le> n" "of_int n \<le> y" "y < of_int n + 1"
      using y floor_correct [of y] by (simp_all add: n_def le_floor_iff)
    then have pos: "0 < n" by simp
    from bitlen_bounds [OF pos] have b: "2 ^ nat k \<le> n" "n < 2 ^ nat (bitlen n)"
      by (simp_all add: k_def)
    have k0: "0 \<le> k"
      using pos bitlen_eq_zero_iff [of n] bitlen_nonneg [of n] by (simp add: k_def)
    have bk: "nat (bitlen n) = Suc (nat k)" using k0 by (simp add: k_def)
    have lo: "(2::rat) ^ nat k \<le> y"
    proof -
      have "(2::rat) ^ nat k = of_int (2 ^ nat k)" by simp
      also have "\<dots> \<le> of_int n" using b(1) by (simp only: of_int_le_iff)
      also have "\<dots> \<le> y" by (rule n(2))
      finally show ?thesis .
    qed
    have hi: "y < 2 ^ Suc (nat k)"
    proof -
      have "n + 1 \<le> 2 ^ Suc (nat k)" using b(2) bk by simp
      then have "(of_int (n + 1) :: rat) \<le> of_int (2 ^ Suc (nat k))"
        by (simp only: of_int_le_iff)
      also have "\<dots> = 2 ^ Suc (nat k)" by simp
      finally have "of_int n + 1 \<le> (2::rat) ^ Suc (nat k)" by simp
      with n(3) show ?thesis by linarith
    qed
    have x: "x = 1 / y" using assms by (simp add: y_def)
    have p: "(2::rat) powi (- k) = 1 / 2 ^ nat k"
      using k0 by (simp add: power_int_minus_divide power_int_nonneg_exp)
    have p1: "(2::rat) powi (- k - 1) = 1 / 2 ^ Suc (nat k)"
    proof -
      have "(2::rat) powi (- k - 1) = 2 powi (- (k + 1))" by simp
      also have "\<dots> = 1 / 2 powi (k + 1)" by (rule power_int_minus_divide)
      also have "2 powi (k + 1) = (2::rat) ^ Suc (nat k)"
        using k0 by (simp add: power_int_nonneg_exp nat_add_distrib)
      finally show ?thesis .
    qed
    show ?thesis
    proof (cases "y = 2 ^ nat k")
      case True
      then have e: "expo x = - k"
        using False by (simp add: expo_def y_def n_def k_def)
      have xe: "x = 2 powi (- k)" using True x p by simp
      have "(2::rat) powi (- k) < 2 powi (- k + 1)"
        by (intro power_int_strict_increasing) simp_all
      then have "2 powi (- k) \<le> x" and "x < 2 powi (- k + 1)"
        by (simp_all only: xe order_refl)
      then show ?thesis unfolding e by blast
    next
      case neq: False
      then have e: "expo x = - k - 1"
        using False by (simp add: expo_def y_def n_def k_def)
      from neq lo have "2 ^ nat k < y" by simp
      then have "1 / y < 1 / 2 ^ nat k"
        using y by (intro divide_strict_left_mono) simp_all
      then have up: "x < 2 powi (- k)" using x p by simp
      from hi have "1 / 2 ^ Suc (nat k) < 1 / y"
        using y by (intro divide_strict_left_mono) simp_all
      then have "2 powi (- k - 1) \<le> x" using x p1 by simp
      with up show ?thesis unfolding e by simp
    qed
  qed
  from * show "2 powi expo x \<le> x" and "x < 2 powi (expo x + 1)" by simp_all
qed


lemma expo_mono:
  assumes "0 < x" "x \<le> y"
  shows "expo x \<le> expo y"
proof (rule ccontr)
  assume "\<not> expo x \<le> expo y"
  then have "expo y + 1 \<le> expo x" by simp
  then have "(2::rat) powi (expo y + 1) \<le> 2 powi expo x"
    by (intro power_int_increasing) simp_all
  also have "\<dots> \<le> x" by (rule expo_bounds(1) [OF assms(1)])
  also have "x \<le> y" by fact
  also have "y < 2 powi (expo y + 1)" using expo_bounds(2) [of y] assms by simp
  finally show False by simp
qed

lemma ulp_pos: "0 < ulp x"
  by (simp add: ulp_def)

lemma round_half_even_floor:
  "\<lfloor>y\<rfloor> \<le> round_half_even y" "round_half_even y \<le> \<lfloor>y\<rfloor> + 1"
  by (simp_all add: round_half_even_def Let_def)

lemma round_half_even_of_int: "round_half_even (of_int m) = m"
  by (simp add: round_half_even_def)

lemma round_half_even_mono:
  assumes "a \<le> b"
  shows "round_half_even a \<le> round_half_even b"
proof (cases "\<lfloor>a\<rfloor> < \<lfloor>b\<rfloor>")
  case True
  have "round_half_even a \<le> \<lfloor>a\<rfloor> + 1" by (rule round_half_even_floor)
  also have "\<dots> \<le> \<lfloor>b\<rfloor>" using True by simp
  also have "\<dots> \<le> round_half_even b" by (rule round_half_even_floor)
  finally show ?thesis .
next
  case False
  moreover have "\<lfloor>a\<rfloor> \<le> \<lfloor>b\<rfloor>" using assms by (rule floor_mono)
  ultimately have eq: "\<lfloor>a\<rfloor> = \<lfloor>b\<rfloor>" by simp
  have "a - of_int \<lfloor>b\<rfloor> \<le> b - of_int \<lfloor>b\<rfloor>" using assms by simp
  then show ?thesis
    by (simp add: round_half_even_def Let_def eq)
qed

lemma round_half_even_near:
  "\<bar>of_int (round_half_even y) - y\<bar> \<le> 1 / 2"
proof -
  define f where "f = \<lfloor>y\<rfloor>"
  have f: "of_int f \<le> y" "y < of_int f + 1"
    using floor_correct [of y] by (simp_all add: f_def)
  have "round_half_even y =
      (if y - of_int f < 1 / 2 then f else if y - of_int f > 1 / 2 then f + 1
       else if even f then f else f + 1)"
    by (simp add: round_half_even_def Let_def f_def)
  with f show ?thesis
    by (auto simp add: abs_if)
qed


lemma ulp_times: "2 powi k * ulp x = 2 powi (k + max (expo x) (- 1022) - 52)"
proof -
  have "(2::rat) powi k * 2 powi (max (expo x) (- 1022) - 52) =
        2 powi (k + (max (expo x) (- 1022) - 52))"
    by (rule power_int_add [symmetric]) simp
  then show ?thesis by (simp add: ulp_def add_diff_eq)
qed

lemma fl_pos_nonneg: "0 < x \<Longrightarrow> 0 \<le> fl_pos x"
proof -
  assume "0 < x"
  then have "0 \<le> x / ulp x" using ulp_pos [of x] by simp
  then have "round_half_even 0 \<le> round_half_even (x / ulp x)"
    by (rule round_half_even_mono)
  then have "0 \<le> round_half_even (x / ulp x)"
    using round_half_even_of_int [of 0] by simp
  then show ?thesis using ulp_pos [of x] by (simp add: fl_pos_def)
qed

lemma fl_pos_upper:
  assumes "0 < x"
  shows "fl_pos x \<le> 2 powi (max (expo x) (- 1022) + 1)"
proof -
  have k: "(of_int (2 ^ 53) :: rat) = 2 powi 53" by (simp add: power_int_def)
  have "x < 2 powi (expo x + 1)" by (rule expo_bounds(2) [OF assms])
  also have "\<dots> \<le> 2 powi (max (expo x) (- 1022) + 1)"
    by (intro power_int_increasing) simp_all
  also have "\<dots> = of_int (2 ^ 53) * ulp x"
    unfolding k ulp_times by (simp add: add.commute)
  finally have "x / ulp x \<le> of_int (2 ^ 53)"
    using ulp_pos [of x] by (simp only: pos_divide_le_eq)
  then have "round_half_even (x / ulp x) \<le> round_half_even (of_int (2 ^ 53))"
    by (rule round_half_even_mono)
  then have "round_half_even (x / ulp x) \<le> 2 ^ 53"
    by (simp only: round_half_even_of_int)
  then have "(of_int (round_half_even (x / ulp x)) :: rat) \<le> of_int (2 ^ 53)"
    by (simp only: of_int_le_iff)
  then have "fl_pos x \<le> of_int (2 ^ 53) * ulp x"
    unfolding fl_pos_def using ulp_pos [of x] by (intro mult_right_mono) simp_all
  also have "\<dots> = 2 powi (max (expo x) (- 1022) + 1)"
    unfolding k ulp_times by (simp add: add.commute)
  finally show ?thesis .
qed

lemma fl_pos_lower:
  assumes "0 < x" "- 1022 \<le> expo x"
  shows "2 powi expo x \<le> fl_pos x"
proof -
  have m: "max (expo x) (- 1022) = expo x" using assms(2) by simp
  have k: "(of_int (2 ^ 52) :: rat) = 2 powi 52" by (simp add: power_int_def)
  have low: "of_int (2 ^ 52) * ulp x = 2 powi expo x"
    unfolding k ulp_times m by simp
  also have "\<dots> \<le> x" by (rule expo_bounds(1) [OF assms(1)])
  finally have "of_int (2 ^ 52) \<le> x / ulp x"
    using ulp_pos [of x] by (simp only: pos_le_divide_eq)
  then have "round_half_even (of_int (2 ^ 52)) \<le> round_half_even (x / ulp x)"
    by (rule round_half_even_mono)
  then have "2 ^ 52 \<le> round_half_even (x / ulp x)"
    by (simp only: round_half_even_of_int)
  then have "(of_int (2 ^ 52) :: rat) \<le> of_int (round_half_even (x / ulp x))"
    by (simp only: of_int_le_iff)
  then have "of_int (2 ^ 52) * ulp x \<le> fl_pos x"
    unfolding fl_pos_def using ulp_pos [of x] by (intro mult_right_mono) simp_all
  then show ?thesis by (simp only: low)
qed

lemma fl_pos_mono:
  assumes "0 < x" "x \<le> y"
  shows "fl_pos x \<le> fl_pos y"
proof -
  from assms have y: "0 < y" by simp
  have e: "expo x \<le> expo y" using assms by (rule expo_mono)
  show ?thesis
  proof (cases "max (expo x) (- 1022) = max (expo y) (- 1022)")
    case True
    then have u: "ulp x = ulp y" by (simp add: ulp_def)
    have "x / ulp y \<le> y / ulp y"
      using assms(2) ulp_pos [of y] by (simp add: divide_right_mono)
    then have "round_half_even (x / ulp y) \<le> round_half_even (y / ulp y)"
      by (rule round_half_even_mono)
    then have "(of_int (round_half_even (x / ulp y)) :: rat) \<le> of_int (round_half_even (y / ulp y))"
      by (simp only: of_int_le_iff)
    then show ?thesis
      unfolding fl_pos_def u using ulp_pos [of y] by (intro mult_right_mono) simp_all
  next
    case False
    with e have lt: "max (expo x) (- 1022) + 1 \<le> expo y" and n: "- 1022 \<le> expo y"
      by (simp_all add: max_def split: if_splits)
    have "fl_pos x \<le> 2 powi (max (expo x) (- 1022) + 1)"
      by (rule fl_pos_upper [OF assms(1)])
    also have "\<dots> \<le> 2 powi expo y"
      using lt by (intro power_int_increasing) simp_all
    also have "\<dots> \<le> fl_pos y" by (rule fl_pos_lower [OF y n])
    finally show ?thesis .
  qed
qed

lemma fl_zero: "fl 0 = 0"
  by (simp add: fl_def)

lemma fl_minus: "fl (- x) = - fl x"
  by (simp add: fl_def)

lemma fl_nonneg: "0 \<le> x \<Longrightarrow> 0 \<le> fl x"
  by (simp add: fl_def fl_pos_nonneg)

lemma fl_mono:
  assumes "x \<le> y"
  shows "fl x \<le> fl y"
proof -
  consider "0 < x" | "x \<le> 0" "0 \<le> y" | "y < 0" by linarith
  then show ?thesis
  proof cases
    case 1
    with assms have "0 < y" by simp
    with 1 assms show ?thesis by (simp add: fl_def fl_pos_mono)
  next
    case 2
    from 2(1) have "fl x \<le> 0"
      using fl_nonneg [of "- x"] by (simp add: fl_minus)
    also have "0 \<le> fl y" using 2(2) by (rule fl_nonneg)
    finally show ?thesis .
  next
    case 3
    with assms have "x < 0" by simp
    have "fl_pos (- y) \<le> fl_pos (- x)"
      using 3 assms by (intro fl_pos_mono) simp_all
    with 3 \<open>x < 0\<close> show ?thesis by (simp add: fl_def)
  qed
qed


lemma fl_pos_near:
  assumes "0 < x"
  shows "\<bar>fl_pos x - x\<bar> \<le> ulp x / 2"
proof -
  define u where "u = ulp x"
  have u: "0 < u" by (simp add: u_def ulp_pos)
  define r :: rat where "r = of_int (round_half_even (x / u))"
  have "\<bar>r - x / u\<bar> \<le> 1 / 2"
    unfolding r_def by (rule round_half_even_near)
  then have "\<bar>r - x / u\<bar> * u \<le> 1 / 2 * u"
    using u by (intro mult_right_mono) simp_all
  moreover have "\<bar>r - x / u\<bar> * u = \<bar>r * u - x\<bar>"
  proof -
    have "\<bar>r - x / u\<bar> * u = \<bar>(r - x / u) * u\<bar>"
      using u by (simp add: abs_mult)
    also have "(r - x / u) * u = r * u - x"
      using u by (simp add: algebra_simps)
    finally show ?thesis .
  qed
  ultimately show ?thesis
    by (simp add: fl_pos_def r_def u_def)
qed

lemma expo_normal:
  assumes "2 powi (- 1022) \<le> x"
  shows "- 1022 \<le> expo x"
proof (rule ccontr)
  assume "\<not> - 1022 \<le> expo x"
  then have "expo x + 1 \<le> - 1022" by simp
  have pos: "0 < x"
  proof -
    have "(0::rat) < 2 powi (- 1022)" by simp
    then show ?thesis using assms by (rule less_le_trans)
  qed
  have "x < 2 powi (expo x + 1)" by (rule expo_bounds(2) [OF pos])
  also have "\<dots> \<le> 2 powi (- 1022)"
    using \<open>expo x + 1 \<le> - 1022\<close> by (intro power_int_increasing) simp_all
  finally show False using assms by simp
qed

lemma fl_relative:
  assumes "2 powi (- 1022) \<le> x"
  shows "\<bar>fl x - x\<bar> \<le> x / 2 ^ 53"
proof -
  have pos: "0 < x"
  proof -
    have "(0::rat) < 2 powi (- 1022)" by simp
    then show ?thesis using assms by (rule less_le_trans)
  qed
  have n: "- 1022 \<le> expo x" using assms by (rule expo_normal)
  then have m: "max (expo x) (- 1022) = expo x" by simp
  have k: "(2::rat) ^ 52 = 2 powi 52" by (simp add: power_int_def)
  have "2 ^ 52 * ulp x = 2 powi expo x"
    unfolding k ulp_times m by simp
  also have "\<dots> \<le> x" by (rule expo_bounds(1) [OF pos])
  finally have "ulp x \<le> x / 2 ^ 52"
    by (simp add: pos_le_divide_eq mult.commute)
  then have "ulp x / 2 \<le> x / 2 ^ 52 / 2" by simp
  also have "\<dots> = x / 2 ^ 53" by simp
  finally have "ulp x / 2 \<le> x / 2 ^ 53" .
  with fl_pos_near [OF pos] show ?thesis
    using pos by (simp add: fl_def)
qed


lemma percentage_close:
  fixes n t :: nat
  assumes n: "0 < n" "n < 2 ^ 32" and t: "0 < t" "t < 2 ^ 53"
  shows "\<bar>fl (fl (of_nat n / of_nat t) * 100) - 100 * of_nat n / of_nat t\<bar>
         < 1 / (2 * of_nat t)"
proof -
  define q :: rat where "q = of_nat n / of_nat t"
  define e :: rat where "e = 1 / 2 ^ 53"
  define p :: rat where "p = fl q * 100"
  have e: "0 < e" "100 * e \<le> 99" by (simp_all add: e_def)
  have tiny: "(2::rat) powi (- 1022) \<le> e"
  proof -
    have "(2::rat) powi (- 1022) \<le> 2 powi (- 53)"
      by (intro power_int_increasing) simp_all
    also have "\<dots> = e" by (simp add: e_def power_int_minus_divide)
    finally show ?thesis .
  qed
  have qpos: "0 < q" using n t by (simp add: q_def)
  have qlow: "e \<le> q"
  proof -
    have "(of_nat t :: rat) < of_nat (2 ^ 53)" using t(2) by (simp only: of_nat_less_iff)
    then have "(of_nat t :: rat) \<le> 2 ^ 53" by simp
    then have "1 / 2 ^ 53 \<le> 1 / (of_nat t :: rat)"
      using t(1) by (intro divide_left_mono) simp_all
    also have "\<dots> \<le> of_nat n / of_nat t"
      using n(1) t(1) by (intro divide_right_mono) simp_all
    finally show ?thesis by (simp add: e_def q_def)
  qed
  have a: "\<bar>fl q - q\<bar> \<le> q * e"
    using fl_relative [of q] tiny qlow by (simp add: e_def)
  have qe: "0 \<le> q * e" using qpos e by simp
  have pq: "\<bar>p - 100 * q\<bar> \<le> 100 * (q * e)"
  proof -
    have "p - 100 * q = 100 * (fl q - q)" by (simp add: p_def algebra_simps)
    then have "\<bar>p - 100 * q\<bar> = \<bar>100 * (fl q - q)\<bar>" by (simp only:)
    also have "\<dots> = \<bar>100\<bar> * \<bar>fl q - q\<bar>" by (rule abs_mult)
    also have "\<dots> = 100 * \<bar>fl q - q\<bar>" by (simp only: abs_numeral)
    finally show ?thesis using a by simp
  qed
  have plow: "q \<le> p"
  proof -
    have "0 \<le> q * (99 - 100 * e)" using qpos e by (intro mult_nonneg_nonneg) simp_all
    then have "q \<le> 100 * q - 100 * (q * e)" by (simp add: algebra_simps)
    also have "\<dots> \<le> p" using pq by (simp add: abs_le_iff)
    finally show ?thesis .
  qed
  have pup: "p \<le> 200 * q"
  proof -
    have "q * e \<le> q * 1" using qpos e by (intro mult_left_mono) simp_all
    then have "100 * q + 100 * (q * e) \<le> 200 * q" by simp
    moreover have "p \<le> 100 * q + 100 * (q * e)" using pq by (simp add: abs_le_iff)
    ultimately show ?thesis by simp
  qed
  have b: "\<bar>fl p - p\<bar> \<le> 200 * (q * e)"
  proof -
    have "\<bar>fl p - p\<bar> \<le> p * e"
      using fl_relative [of p] tiny qlow plow by (simp add: e_def)
    also have "\<dots> \<le> 200 * q * e" using pup e(1) by (intro mult_right_mono) simp_all
    finally show ?thesis by (simp add: mult.assoc)
  qed
  have "\<bar>fl p - 100 * q\<bar> \<le> \<bar>fl p - p\<bar> + \<bar>p - 100 * q\<bar>" by simp
  also have "\<dots> \<le> 300 * (q * e)" using b pq by simp
  also have "\<dots> < 1 / (2 * of_nat t)"
  proof -
    have "(of_nat n :: rat) < of_nat (2 ^ 32)" using n(2) by (simp only: of_nat_less_iff)
    then have "(of_nat n :: rat) < 2 ^ 32" by simp
    then have "600 * (of_nat n :: rat) < 2 ^ 53" by simp
    then have "600 * of_nat n * e < 1" by (simp add: e_def)
    then have "600 * of_nat n * e * (1 / (2 * of_nat t)) < 1 * (1 / (2 * of_nat t :: rat))"
      using t(1) by (intro mult_strict_right_mono) simp_all
    moreover have "300 * (q * e) = 600 * of_nat n * e * (1 / (2 * of_nat t))"
      by (simp add: q_def)
    ultimately show ?thesis by simp
  qed
  finally show ?thesis by (simp add: p_def q_def)
qed

lemma round_stable:
  fixes z z' :: rat and a :: int and t :: nat
  assumes z: "z = of_int a / of_nat t" and t: "0 < t"
    and near: "\<bar>z' - z\<bar> < 1 / (2 * of_nat t)"
    and half: "frac z \<noteq> 1 / 2"
  shows "round z' = round z"
proof -
  define m where "m = round z"
  have m: "of_int m \<le> z + 1 / 2" "z + 1 / 2 < of_int m + 1"
    using floor_correct [of "z + 1 / 2"] by (simp_all add: m_def round_def)
  define T :: rat where "T = of_nat t"
  have T: "0 < T" using t by (simp add: T_def)
  have zT: "z * T = of_int a" using T by (simp add: z T_def)
  have ne: "z + 1 / 2 \<noteq> of_int m"
  proof
    assume "z + 1 / 2 = of_int m"
    then have "z - 1 / 2 = of_int (m - 1)" by simp
    then have "z - 1 / 2 \<in> \<int>" by (simp only: Ints_of_int)
    then have "frac z = 1 / 2"
      unfolding frac_unique_iff by simp
    with half show False by (rule notE)
  qed
  have lo: "1 / (2 * T) \<le> z + 1 / 2 - of_int m"
  proof -
    have "(z + 1 / 2 - of_int m) * (2 * T) = of_int (2 * a + int t - 2 * m * int t)"
      using zT by (simp add: algebra_simps T_def)
    moreover have "0 < (z + 1 / 2 - of_int m) * (2 * T)"
      using m(1) ne T by simp
    ultimately have "(0::rat) < of_int (2 * a + int t - 2 * m * int t)" by simp
    then have "1 \<le> 2 * a + int t - 2 * m * int t" by (simp only: of_int_0_less_iff)
    then have "(1::rat) \<le> of_int (2 * a + int t - 2 * m * int t)" by (simp only: of_int_1_le_iff)
    with \<open>(z + 1 / 2 - of_int m) * (2 * T) = of_int (2 * a + int t - 2 * m * int t)\<close>
    have "1 \<le> (z + 1 / 2 - of_int m) * (2 * T)" by simp
    then show ?thesis using T by (simp add: pos_divide_le_eq)
  qed
  have hi: "1 / (2 * T) \<le> of_int m + 1 - (z + 1 / 2)"
  proof -
    have eq: "(of_int m + 1 - (z + 1 / 2)) * (2 * T) = of_int (2 * m * int t + int t - 2 * a)"
      using zT by (simp add: algebra_simps T_def)
    moreover have "0 < (of_int m + 1 - (z + 1 / 2)) * (2 * T)"
      using m(2) T by simp
    ultimately have "(0::rat) < of_int (2 * m * int t + int t - 2 * a)" by simp
    then have "1 \<le> 2 * m * int t + int t - 2 * a" by (simp only: of_int_0_less_iff)
    then have "(1::rat) \<le> of_int (2 * m * int t + int t - 2 * a)" by (simp only: of_int_1_le_iff)
    with eq have "1 \<le> (of_int m + 1 - (z + 1 / 2)) * (2 * T)" by simp
    then show ?thesis using T by (simp add: pos_divide_le_eq)
  qed
  from near have "z - 1 / (2 * T) < z'" "z' < z + 1 / (2 * T)"
    by (simp_all add: abs_less_iff T_def)
  with lo hi have "of_int m \<le> z' + 1 / 2" "z' + 1 / 2 < of_int m + 1"
    by simp_all
  then have "\<lfloor>z' + 1 / 2\<rfloor> = m" by (simp add: floor_eq_iff)
  then show ?thesis by (simp add: round_def m_def)
qed

lemma percent_zero: "percent 0 b = 0"
  by (simp add: percent_def fl_def)

lemma fl_two_powers: "fl (1 / 2 ^ 21) = 1 / 2 ^ 21" "fl (100 / 2 ^ 21) = 100 / 2 ^ 21"
  by code_simp+

lemma percent_small:
  fixes n t :: nat
  assumes "n < 2 ^ 32" "2 ^ 53 \<le> t"
  shows "percent n t = 0" and "round (100 * of_nat n / of_nat t :: rat) = 0"
proof -
  define q :: rat where "q = of_nat n / of_nat t"
  have t: "(2::rat) ^ 53 \<le> of_nat t"
  proof -
    have "(of_nat (2 ^ 53) :: rat) \<le> of_nat t" using assms(2) by (simp only: of_nat_le_iff)
    then show ?thesis by simp
  qed
  then have tpos: "(0::rat) < of_nat t" by (rule less_le_trans [rotated]) simp
  have n: "(of_nat n :: rat) \<le> 2 ^ 32"
  proof -
    have "(of_nat n :: rat) < of_nat (2 ^ 32)" using assms(1) by (simp only: of_nat_less_iff)
    then show ?thesis by simp
  qed
  have q0: "0 \<le> q" by (simp add: q_def)
  have q1: "q \<le> 1 / 2 ^ 21"
  proof -
    have "q \<le> 2 ^ 32 / of_nat t"
      unfolding q_def using n tpos by (intro divide_right_mono) simp_all
    also have "\<dots> \<le> 2 ^ 32 / 2 ^ 53"
      using t by (intro divide_left_mono) simp_all
    also have "\<dots> = 1 / 2 ^ 21" by simp
    finally show ?thesis .
  qed
  have f0: "0 \<le> fl q" using q0 by (rule fl_nonneg)
  have f1: "fl q \<le> 1 / 2 ^ 21"
    using fl_mono [OF q1] by (simp only: fl_two_powers)
  have p0: "0 \<le> fl (fl q * 100)" using f0 by (intro fl_nonneg) simp
  have "fl q * 100 \<le> 100 / 2 ^ 21" using f1 by simp
  then have "fl (fl q * 100) \<le> 100 / 2 ^ 21"
    using fl_mono [of "fl q * 100" "100 / 2 ^ 21"] by (simp only: fl_two_powers)
  then have p1: "fl (fl q * 100) < 1 / 2" by simp
  from p0 p1 show "percent n t = 0"
    by (simp add: percent_def q_def round_def floor_eq_iff)
  have "100 * q < 1 / 2" using q1 by simp
  with q0 show "round (100 * of_nat n / of_nat t :: rat) = 0"
    by (simp add: q_def round_def floor_eq_iff)
qed

lemma percent_three_of_four: "percent 3 4 = 75"
  by code_simp

lemma percent_four_of_four: "percent 4 4 = 100"
  by code_simp

lemma percentage_170_of_200:
  "js_min (js_round (js_times (js_div 170 200) 100)) 100 = Num 85"
  by code_simp

section \<open>Watch time\<close>

lemma updateWatchTime_watchTime:
  "watchTime (updateWatchTime lesson now s p) = max (watchTime p) s"
  by (simp add: updateWatchTime_def Let_def split: option.splits)

lemma updateWatchTime_totalWatchTime:
  "totalWatchTime (updateWatchTime lesson now s p) = totalWatchTime p + s"
  by (simp add: updateWatchTime_def Let_def split: option.splits)

lemma updateWatchTime_percentage_video:
  "ltype lesson = Video \<Longrightarrow> video_duration lesson = Some d \<Longrightarrow> d \<noteq> 0 \<Longrightarrow>
   completionPercentage (updateWatchTime lesson now s p) =
     js_min (js_round (js_times (js_div (max (watchTime p) s) d) 100)) 100"
  by (simp add: updateWatchTime_def Let_def)

lemma updateWatchTime_percentage_idle:
  "ltype lesson \<noteq> Video \<or> video_duration lesson = None \<or> video_duration lesson = Some 0 \<Longrightarrow>
   completionPercentage (updateWatchTime lesson now s p) = completionPercentage p"
  by (auto simp add: updateWatchTime_def Let_def split: option.splits)

lemma updateWatchTime_status_completed:
  "status p = Completed \<Longrightarrow> status (updateWatchTime lesson now s p) = Completed"
  by (simp add: updateWatchTime_def Let_def split: option.splits)

lemma updateWatchTime_unpopulated_fields:
  "watchTime (updateWatchTime_unpopulated s p) = max (watchTime p) s"
  "totalWatchTime (updateWatchTime_unpopulated s p) = totalWatchTime p + s"
  "completionPercentage (updateWatchTime_unpopulated s p) = completionPercentage p"
  "status (updateWatchTime_unpopulated s p) = status p"
  by (simp_all add: updateWatchTime_unpopulated_def Let_def)

lemma castObjectId_lesson_a:
  "castObjectId ''65f0c0ffee0000000000000a'' = Some ''65f0c0ffee0000000000000a''"
  by code_simp

lemma findById_lesson_a: "findById catalog ''65f0c0ffee0000000000000a'' = Some lesson_a"
  by (simp add: findById_def catalog_def lesson_a_def)

lemma watch_request_lesson_a:
  "updateLessonProgress catalog (Some enrolled) None 2000
     (watch_request ''65f0c0ffee0000000000000a'' 90) =
   \<lparr>res_reply = Replied 200,
    res_progress = Some (updateWatchTime_unpopulated 90
      (new_Progress ''u1'' ''C1'' ''65f0c0ffee0000000000000a'' 2000)),
    res_enrollment = None\<rparr>"
proof -
  have l: "ltype lesson_a = Video" "lesson_course lesson_a = ''C1''"
    by (simp_all add: lesson_a_def video_lesson_def)
  have r: "params_id (watch_request ''65f0c0ffee0000000000000a'' 90) = ''65f0c0ffee0000000000000a''"
    "req_user_id (watch_request ''65f0c0ffee0000000000000a'' 90) = ''u1''"
    "body_watchTime (watch_request ''65f0c0ffee0000000000000a'' 90) = Some 90"
    by (simp_all add: watch_request_def)
  have s: "status (updateWatchTime_unpopulated 90
      (new_Progress ''u1'' ''C1'' ''65f0c0ffee0000000000000a'' 2000)) = NotStarted"
    by (simp add: updateWatchTime_unpopulated_fields new_Progress_def)
  show ?thesis
    by (simp add: updateLessonProgress_def r castObjectId_lesson_a findById_lesson_a l s Let_def)
qed

lemma percentage_90_of_200:
  "js_min (js_round (js_times (js_div 90 200) 100)) 100 = Num 45"
  by code_simp

lemma percentage_50_of_200:
  "js_min (js_round (js_times (js_div 50 200) 100)) 100 = Num 25"
  by code_simp

lemma percentage_23_of_40:
  "js_min (js_round (js_times (js_div 23 40) 100)) 100 = Num 57"
  by code_simp

lemma percentage_29_of_200:
  "js_min (js_round (js_times (js_div 29 200) 100)) 100 = Num 14"
  by code_simp

lemma percentage_10_of_200:
  "js_min (js_round (js_times (js_div 10 200) 100)) 100 = Num 5"
  by code_simp

lemma percentage_10_of_minus_200:
  "js_min (js_round (js_times (js_div 10 (- 200)) 100)) 100 = Num (- 5)"
  by code_simp

lemma percentage_20_of_minus_200:
  "js_min (js_round (js_times (js_div 20 (- 200)) 100)) 100 = Num (- 10)"
  by code_simp

text \<open>
  Claim C1, evaluated. The claim says that a watch-time report on a video lesson of
  positive duration \<open>d\<close> sets \<open>completionPercentage\<close> to \<open>min(100, round(100 * watchTime / d))\<close>.
  The controller, the only caller of \<open>updateWatchTime\<close>, calls it on a progress whose
  lesson is not populated: a report of 90 seconds on a video lesson of 200 seconds
  records the watch time and leaves \<open>completionPercentage\<close> at 0, where the claim says 45.
  On a progress whose lesson is populated the method computes the quotient before the
  product, each rounded to double: 23 of 40 seconds gives 57 where the claim says 58,
  and 29 of 200 seconds gives 14 where it says 15.
\<close>

theorem C1_updateWatchTime_diverges:
  "res_reply (updateLessonProgress catalog (Some enrolled) None 2000
      (watch_request ''65f0c0ffee0000000000000a'' 90)) = Replied 200
   \<and> map_option (\<lambda>p. (watchTime p, totalWatchTime p, completionPercentage p, status p))
        (res_progress (updateLessonProgress catalog (Some enrolled) None 2000
           (watch_request ''65f0c0ffee0000000000000a'' 90)))
       = Some (90, 90, Num 0, NotStarted)
   \<and> ltype lesson_a = Video \<and> video_duration lesson_a = Some 200
   \<and> min 100 (round (100 * 90 / 200 :: rat)) = 45
   \<and> ltype short_video = Video \<and> video_duration short_video = Some 40
   \<and> completionPercentage (updateWatchTime short_video 2000 23 fresh) = Num 57
   \<and> min 100 (round (100 * 23 / 40 :: rat)) = 58
   \<and> ltype video_lesson = Video \<and> video_duration video_lesson = Some 200
   \<and> completionPercentage (updateWatchTime video_lesson 2000 29 fresh) = Num 14
   \<and> min 100 (round (100 * 29 / 200 :: rat)) = 15"
proof -
  have a: "map_option (\<lambda>p. (watchTime p, totalWatchTime p, completionPercentage p, status p))
        (res_progress (updateLessonProgress catalog (Some enrolled) None 2000
           (watch_request ''65f0c0ffee0000000000000a'' 90)))
       = Some (90, 90, Num 0, NotStarted)"
    unfolding watch_request_lesson_a
    by (simp add: updateWatchTime_unpopulated_fields new_Progress_def)
  have b: "completionPercentage (updateWatchTime short_video 2000 23 fresh) = Num 57"
    by (simp add: updateWatchTime_def Let_def short_video_def video_lesson_def fresh_def
        new_Progress_def or_default_def percentage_23_of_40)
  have c: "completionPercentage (updateWatchTime video_lesson 2000 29 fresh) = Num 14"
    by (simp add: updateWatchTime_def Let_def video_lesson_def fresh_def
        new_Progress_def or_default_def percentage_29_of_200)
  have d: "min 100 (round (100 * 90 / 200 :: rat)) = 45"
    "min 100 (round (100 * 23 / 40 :: rat)) = 58"
    "min 100 (round (100 * 29 / 200 :: rat)) = 15"
    by (simp_all add: round_def floor_eq_iff)
  show ?thesis
    unfolding watch_request_lesson_a using a b c d
    by (simp add: lesson_a_def short_video_def video_lesson_def watch_request_lesson_a)
qed

section \<open>Sequences of watch-time reports\<close>

lemma nondecreasing_refl: "nondecreasing x x"
  by (simp add: nondecreasing_def)

lemma to_double_not_NaN: "to_double x \<noteq> NaN"
  by (simp add: to_double_def Let_def)

lemma to_double_zero: "to_double 0 = Num 0"
  by (simp add: to_double_def fl_zero)

lemma to_double_mono:
  assumes "a \<le> b"
  shows "js_le (to_double a) (to_double b)"
proof -
  have m: "fl a \<le> fl b" using assms by (rule fl_mono)
  have up: "0 < fl b \<and> 1023 < expo (fl b)" if "0 < fl a" "1023 < expo (fl a)"
    using that m expo_mono [of "fl a" "fl b"] by simp
  have down: "fl a < 0 \<and> 1023 < expo (- fl a)" if "fl b < 0" "1023 < expo (- fl b)"
    using that m expo_mono [of "- fl b" "- fl a"] by simp
  show ?thesis
  proof (cases "0 < fl a \<and> 1023 < expo (fl a)")
    case True
    with up have "to_double a = PosInfinity" "to_double b = PosInfinity"
      by (simp_all add: to_double_def)
    then show ?thesis by simp
  next
    case high: False
    show ?thesis
    proof (cases "fl a < 0 \<and> 1023 < expo (- fl a)")
      case True
      then have "to_double a = NegInfinity" by (simp add: to_double_def Let_def)
      then show ?thesis using to_double_not_NaN [of b] by (cases "to_double b") simp_all
    next
      case low: False
      from high low have a: "to_double a = Num (fl a)"
        by (simp add: to_double_def Let_def)
      from low down have "\<not> (fl b < 0 \<and> 1023 < expo (- fl b))" by blast
      then have "to_double b = PosInfinity \<or> to_double b = Num (fl b)"
        by (auto simp add: to_double_def Let_def)
      with a m show ?thesis by auto
    qed
  qed
qed

lemma js_times_mono:
  assumes "js_le x y" "0 < c"
  shows "js_le (js_times x c) (js_times y c)"
proof (cases x)
  case (Num a)
  show ?thesis
  proof (cases y)
    case (Num b)
    with \<open>x = Num a\<close> assms have "a * c \<le> b * c" by (simp add: mult_right_mono)
    then show ?thesis unfolding \<open>x = Num a\<close> Num by (simp add: to_double_mono)
  next
    case PosInfinity
    then show ?thesis
      using assms(2) to_double_not_NaN [of "a * c"] \<open>x = Num a\<close>
      by (cases "to_double (a * c)") simp_all
  qed (use assms \<open>x = Num a\<close> in simp_all)
next
  case NegInfinity
  show ?thesis
  proof (cases y)
    case (Num b)
    then show ?thesis
      using assms(2) to_double_not_NaN [of "b * c"] NegInfinity
      by (cases "to_double (b * c)") simp_all
  qed (use assms NegInfinity in simp_all)
next
  case PosInfinity
  with assms show ?thesis by (cases y) simp_all
next
  case NaN
  with assms show ?thesis by simp
qed

lemma js_round_mono: "js_le x y \<Longrightarrow> js_le (js_round x) (js_round y)"
  by (cases x; cases y) (simp_all add: round_mono)

lemma js_min_mono: "js_le x y \<Longrightarrow> js_le (js_min x c) (js_min y c)"
  by (cases x; cases y) (simp_all add: min.coboundedI1)

lemma percentage_mono:
  assumes "0 < d" "w \<le> w'"
  shows "nondecreasing (js_min (js_round (js_times (js_div w d) 100)) 100)
           (js_min (js_round (js_times (js_div w' d) 100)) 100)"
proof -
  have "w / d \<le> w' / d" using assms by (simp add: divide_right_mono)
  then have "js_le (js_div w d) (js_div w' d)"
    using assms(1) by (simp add: js_div_def to_double_mono)
  then show ?thesis
    by (simp add: nondecreasing_def js_min_mono js_round_mono js_times_mono)
qed

lemma percentage_of_zero:
  "d \<noteq> 0 \<Longrightarrow> js_min (js_round (js_times (js_div 0 d) 100)) 100 = Num 0"
  by (simp add: js_div_def to_double_zero)

lemma updateWatchTimes_video:
  assumes "ltype lesson = Video" "video_duration lesson = Some d" "d \<noteq> 0"
  shows "q \<in> set (updateWatchTimes lesson calls p) \<Longrightarrow>
         watchTime p \<le> watchTime q \<and>
         completionPercentage q =
           js_min (js_round (js_times (js_div (watchTime q) d) 100)) 100"
proof (induction calls arbitrary: p)
  case Nil
  then show ?case by simp
next
  case (Cons call calls)
  obtain now s where call: "call = (now, s)" by (cases call)
  let ?p1 = "updateWatchTime lesson now s p"
  from Cons.prems call have "q = ?p1 \<or> q \<in> set (updateWatchTimes lesson calls ?p1)"
    by simp
  then show ?case
  proof
    assume "q = ?p1"
    then show ?thesis
      using updateWatchTime_percentage_video [OF assms, of now s p]
      by (simp add: updateWatchTime_watchTime)
  next
    assume "q \<in> set (updateWatchTimes lesson calls ?p1)"
    from Cons.IH [OF this] show ?thesis
      by (simp add: updateWatchTime_watchTime)
  qed
qed

lemma updateWatchTimes_idle:
  assumes "ltype lesson \<noteq> Video \<or> video_duration lesson = None \<or> video_duration lesson = Some 0"
  shows "q \<in> set (updateWatchTimes lesson calls p) \<Longrightarrow>
         completionPercentage q = completionPercentage p"
proof (induction calls arbitrary: p)
  case Nil
  then show ?case by simp
next
  case (Cons call calls)
  obtain now s where call: "call = (now, s)" by (cases call)
  from Cons.prems call Cons.IH [of "updateWatchTime lesson now s p"]
  show ?case
    using updateWatchTime_percentage_idle [OF assms, of now s p] by auto
qed

lemma updateWatchTimes_status:
  "status p = Completed \<Longrightarrow> q \<in> set (updateWatchTimes lesson calls p) \<Longrightarrow> status q = Completed"
proof (induction calls arbitrary: p)
  case Nil
  then show ?case by simp
next
  case (Cons call calls)
  obtain now s where call: "call = (now, s)" by (cases call)
  from Cons.prems call Cons.IH [of "updateWatchTime lesson now s p"]
  show ?case
    using updateWatchTime_status_completed [of p lesson now s] by auto
qed

lemma updateWatchTimes_sorted_percentage:
  assumes "\<forall>d. video_duration lesson = Some d \<longrightarrow> 0 \<le> d"
  shows "sorted_wrt (\<lambda>a b. nondecreasing (completionPercentage a) (completionPercentage b))
           (updateWatchTimes lesson calls p)"
proof (induction calls arbitrary: p)
  case Nil
  then show ?case by simp
next
  case (Cons call calls)
  obtain now s where call: "call = (now, s)" by (cases call)
  let ?p1 = "updateWatchTime lesson now s p"
  have "nondecreasing (completionPercentage ?p1) (completionPercentage q)"
    if q: "q \<in> set (updateWatchTimes lesson calls ?p1)" for q
  proof (cases "ltype lesson \<noteq> Video \<or> video_duration lesson = None \<or> video_duration lesson = Some 0")
    case True
    from updateWatchTimes_idle [OF True q] show ?thesis
      by (simp add: nondecreasing_refl)
  next
    case False
    then obtain d where d: "ltype lesson = Video" "video_duration lesson = Some d" "d \<noteq> 0"
      by auto
    with assms have pos: "0 < d" by auto
    have one: "completionPercentage ?p1 =
        js_min (js_round (js_times (js_div (watchTime ?p1) d) 100)) 100"
      using updateWatchTime_percentage_video [OF d, of now s p]
      by (simp add: updateWatchTime_watchTime)
    from updateWatchTimes_video [OF d q]
    have two: "watchTime ?p1 \<le> watchTime q"
      "completionPercentage q = js_min (js_round (js_times (js_div (watchTime q) d) 100)) 100"
      by simp_all
    show ?thesis
      unfolding one two(2) using pos two(1) by (rule percentage_mono)
  qed
  with Cons.IH [of ?p1] call show ?case by simp
qed

lemma updateWatchTimes_from_new:
  assumes "\<forall>d. video_duration lesson = Some d \<longrightarrow> 0 \<le> d"
    and q: "q \<in> set (updateWatchTimes lesson calls (new_Progress u c l t))"
  shows "nondecreasing (Num 0) (completionPercentage q)"
proof (cases "ltype lesson \<noteq> Video \<or> video_duration lesson = None \<or> video_duration lesson = Some 0")
  case True
  from updateWatchTimes_idle [OF True q] show ?thesis
    by (simp add: new_Progress_def nondecreasing_def)
next
  case False
  then obtain d where d: "ltype lesson = Video" "video_duration lesson = Some d" "d \<noteq> 0"
    by auto
  with assms have pos: "0 < d" by auto
  from updateWatchTimes_video [OF d q]
  have w: "0 \<le> watchTime q"
    and pc: "completionPercentage q =
      js_min (js_round (js_times (js_div (watchTime q) d) 100)) 100"
    by (simp_all add: new_Progress_def)
  from percentage_mono [OF pos w] show ?thesis
    unfolding pc by (simp add: percentage_of_zero d(3))
qed

text \<open>
  Claim C6, as amended. Over a sequence of \<open>updateWatchTime\<close> calls on one lesson progress
  with non-decreasing reported values, for a lesson whose video duration, when it has
  one, is not negative, the \<open>completionPercentage\<close> values after the calls are
  non-decreasing along the sequence, and they are so from the initial document on when
  that is a newly created progress; and from a progress whose status is completed,
  every later document of the sequence is completed.
\<close>

theorem C6_watch_time_monotone:
  assumes "sorted (map snd calls)"
    and "\<forall>d. video_duration lesson = Some d \<longrightarrow> 0 \<le> d"
  shows "sorted_wrt (\<lambda>a b. nondecreasing (completionPercentage a) (completionPercentage b))
           (updateWatchTimes lesson calls p)
       \<and> sorted_wrt (\<lambda>a b. nondecreasing (completionPercentage a) (completionPercentage b))
           (new_Progress u c l t # updateWatchTimes lesson calls (new_Progress u c l t))
       \<and> sorted_wrt (\<lambda>a b. status a = Completed \<longrightarrow> status b = Completed)
           (p # updateWatchTimes lesson calls p)"
proof (intro conjI)
  show "sorted_wrt (\<lambda>a b. nondecreasing (completionPercentage a) (completionPercentage b))
          (updateWatchTimes lesson calls p)"
    using assms(2) by (rule updateWatchTimes_sorted_percentage)
next
  have "completionPercentage (new_Progress u c l t) = Num 0"
    by (simp add: new_Progress_def)
  then show "sorted_wrt (\<lambda>a b. nondecreasing (completionPercentage a) (completionPercentage b))
          (new_Progress u c l t # updateWatchTimes lesson calls (new_Progress u c l t))"
    using updateWatchTimes_sorted_percentage [OF assms(2), of calls "new_Progress u c l t"]
      updateWatchTimes_from_new [OF assms(2)]
    by simp
next
  have "sorted_wrt (\<lambda>a b. status a = Completed \<longrightarrow> status b = Completed)
          (updateWatchTimes lesson calls q)" for q
  proof (induction calls arbitrary: q)
    case Nil
    then show ?case by simp
  next
    case (Cons call calls)
    obtain now s where call: "call = (now, s)" by (cases call)
    from Cons.IH [of "updateWatchTime lesson now s q"] call show ?case
      using updateWatchTimes_status by auto
  qed
  then show "sorted_wrt (\<lambda>a b. status a = Completed \<longrightarrow> status b = Completed)
          (p # updateWatchTimes lesson calls p)"
    using updateWatchTimes_status by auto
qed

lemma three_reports:
  "map (\<lambda>q. (completionPercentage q, status q))
     (updateWatchTimes video_lesson [(2000, 50), (3000, 90), (4000, 170)] fresh)
   = [(Num 25, InProgress), (Num 45, InProgress), (Num 85, Completed)]"
  by (simp add: updateWatchTime_def video_lesson_def fresh_def new_Progress_def
      or_default_def Let_def percentage_50_of_200 percentage_90_of_200 percentage_170_of_200)

theorem C6_watch_time_monotone_witness:
  "sorted (map snd [(2000 :: nat, 50 :: rat), (3000, 90), (4000, 170)])
   \<and> video_duration video_lesson = Some 200
   \<and> map completionPercentage
        (updateWatchTimes video_lesson [(2000, 50), (3000, 90), (4000, 170)] fresh)
        = [Num 25, Num 45, Num 85]
   \<and> map status (updateWatchTimes video_lesson [(2000, 50), (3000, 90), (4000, 170)] fresh)
        = [InProgress, InProgress, Completed]
   \<and> sorted_wrt (\<lambda>a b. nondecreasing (completionPercentage a) (completionPercentage b))
        (updateWatchTimes video_lesson [(2000, 50), (3000, 90), (4000, 170)] fresh)
   \<and> sorted_wrt (\<lambda>a b. nondecreasing (completionPercentage a) (completionPercentage b))
        (fresh # updateWatchTimes video_lesson [(2000, 50), (3000, 90), (4000, 170)] fresh)"
proof -
  have s: "sorted (map snd [(2000 :: nat, 50 :: rat), (3000, 90), (4000, 170)])"
    by simp
  have d: "\<forall>d. video_duration video_lesson = Some d \<longrightarrow> 0 \<le> d"
    by (simp add: video_lesson_def)
  from three_reports have "map completionPercentage
        (updateWatchTimes video_lesson [(2000, 50), (3000, 90), (4000, 170)] fresh)
        = [Num 25, Num 45, Num 85]"
      and "map status (updateWatchTimes video_lesson [(2000, 50), (3000, 90), (4000, 170)] fresh)
        = [InProgress, InProgress, Completed]"
    by auto
  with C6_watch_time_monotone [OF s d, of fresh "''u1''" "''C1''" "''L1''" 1000]
  show ?thesis
    by (simp add: video_lesson_def fresh_def)
qed

text \<open>
  The claim as stated fails from a progress whose percentage was not set by watch
  time: after the status update to completed it is 100, and the first report, of 10
  seconds on a video of 200 seconds, assigns 5. It fails as well for a video lesson
  whose duration is negative (the schema sets no minimum): reports of 10 and 20 seconds
  on a duration of -200 assign -5 and -10.
\<close>

theorem C6_percentage_lowered_counterexample:
  "sorted (map snd [(2000 :: nat, 10 :: rat)])
   \<and> completionPercentage (updateStatus 1500 Completed fresh) = Num 100
   \<and> completionPercentage
        (updateWatchTime video_lesson 2000 10 (updateStatus 1500 Completed fresh)) = Num 5
   \<and> \<not> sorted_wrt (\<lambda>a b. nondecreasing (completionPercentage a) (completionPercentage b))
          (updateStatus 1500 Completed fresh
             # updateWatchTimes video_lesson [(2000, 10)] (updateStatus 1500 Completed fresh))
   \<and> sorted (map snd [(2000 :: nat, 10 :: rat), (3000, 20)])
   \<and> map completionPercentage
        (updateWatchTimes reversed_video [(2000, 10), (3000, 20)] fresh)
        = [Num (- 5), Num (- 10)]
   \<and> \<not> sorted_wrt (\<lambda>a b. nondecreasing (completionPercentage a) (completionPercentage b))
          (updateWatchTimes reversed_video [(2000, 10), (3000, 20)] fresh)"
proof -
  have a: "completionPercentage (updateStatus 1500 Completed fresh) = Num 100"
    by (simp add: updateStatus_def)
  have b: "completionPercentage
        (updateWatchTime video_lesson 2000 10 (updateStatus 1500 Completed fresh)) = Num 5"
    by (simp add: updateWatchTime_def updateStatus_def video_lesson_def fresh_def
        new_Progress_def or_default_def Let_def percentage_10_of_200)
  have c: "map completionPercentage
        (updateWatchTimes reversed_video [(2000, 10), (3000, 20)] fresh)
        = [Num (- 5), Num (- 10)]"
    by (simp add: updateWatchTime_def reversed_video_def video_lesson_def fresh_def
        new_Progress_def or_default_def Let_def percentage_10_of_minus_200
        percentage_20_of_minus_200)
  have d: "\<not> nondecreasing (Num 100) (Num 5)" "\<not> nondecreasing (Num (- 5)) (Num (- 10))"
    by (simp_all add: nondecreasing_def)
  from c have e: "completionPercentage (updateWatchTime reversed_video 2000 10 fresh) = Num (- 5)"
    "completionPercentage (updateWatchTime reversed_video 3000 20
       (updateWatchTime reversed_video 2000 10 fresh)) = Num (- 10)"
    by simp_all
  show ?thesis
    using a b c d e by simp
qed

section \<open>Quiz attempts\<close>

lemma recordQuizAttempt_passed:
  "quiz_passed (recordQuizAttempt lesson now ans sc spent p) =
     js_ge (attemptPercentage lesson sc) (or_default (quiz_passingScore lesson) 70)"
  by (simp add: recordQuizAttempt_def Let_def)

lemma recordQuizAttempt_pass:
  assumes "js_ge (attemptPercentage lesson sc) (or_default (quiz_passingScore lesson) 70)"
  shows "status (recordQuizAttempt lesson now ans sc spent p) = Completed"
    and "completionPercentage (recordQuizAttempt lesson now ans sc spent p) = Num 100"
    and "completedAt (recordQuizAttempt lesson now ans sc spent p) = Some now"
  using assms by (simp_all add: recordQuizAttempt_def Let_def)

lemma recordQuizAttempt_fail:
  assumes "\<not> js_ge (attemptPercentage lesson sc) (or_default (quiz_passingScore lesson) 70)"
  shows "status p = NotStarted \<Longrightarrow>
           status (recordQuizAttempt lesson now ans sc spent p) = InProgress"
    and "status p = NotStarted \<Longrightarrow>
           completionPercentage (recordQuizAttempt lesson now ans sc spent p) =
             js_min (attemptPercentage lesson sc) 99"
    and "status p \<noteq> NotStarted \<Longrightarrow>
           status (recordQuizAttempt lesson now ans sc spent p) = status p"
    and "status p \<noteq> NotStarted \<Longrightarrow>
           completionPercentage (recordQuizAttempt lesson now ans sc spent p) =
             completionPercentage p"
    and "status p \<noteq> NotStarted \<Longrightarrow>
           completedAt (recordQuizAttempt lesson now ans sc spent p) = completedAt p"
  using assms by (simp_all add: recordQuizAttempt_def Let_def)

lemma js_min_99_not_100: "js_min x 99 \<noteq> Num 100"
  by (cases x) simp_all

lemma attemptPercentage_quiz_lesson_4: "attemptPercentage quiz_lesson 4 = Num 67"
  by code_simp

lemma attemptPercentage_quiz_lesson_5: "attemptPercentage quiz_lesson 5 = Num 83"
  by code_simp

text \<open>
  Claim C10. A quiz attempt whose percentage does not reach the passing threshold,
  recorded on a progress that is not started, sets the status to in-progress and
  \<open>completionPercentage\<close> to \<open>min(percentage, 99)\<close>; a failing attempt never sets
  \<open>completionPercentage\<close> to 100, and on a progress that is in progress or completed it
  changes neither \<open>completionPercentage\<close> nor the status.
\<close>

theorem C10_failing_attempt:
  assumes "\<not> js_ge (attemptPercentage lesson sc) (or_default (quiz_passingScore lesson) 70)"
  shows "(status p = NotStarted \<longrightarrow>
            status (recordQuizAttempt lesson now ans sc spent p) = InProgress
          \<and> completionPercentage (recordQuizAttempt lesson now ans sc spent p) =
              js_min (attemptPercentage lesson sc) 99
          \<and> (\<forall>x. attemptPercentage lesson sc = Num x \<longrightarrow>
                completionPercentage (recordQuizAttempt lesson now ans sc spent p) =
                  Num (min x 99)))
       \<and> (status p \<noteq> NotStarted \<longrightarrow>
            completionPercentage (recordQuizAttempt lesson now ans sc spent p) =
              completionPercentage p
          \<and> status (recordQuizAttempt lesson now ans sc spent p) = status p)
       \<and> (completionPercentage (recordQuizAttempt lesson now ans sc spent p) = Num 100 \<longrightarrow>
            completionPercentage p = Num 100)"
proof (cases "status p = NotStarted")
  case True
  from recordQuizAttempt_fail(1,2) [OF assms True, of now ans spent]
  show ?thesis using True by (auto simp: js_min_99_not_100)
next
  case False
  from recordQuizAttempt_fail(3,4) [OF assms False, of now ans spent]
  show ?thesis using False by simp
qed

theorem C10_failing_attempt_witness:
  "\<not> js_ge (attemptPercentage quiz_lesson 4) (or_default (quiz_passingScore quiz_lesson) 70)
   \<and> status fresh = NotStarted
   \<and> status (recordQuizAttempt quiz_lesson 2000 [] 4 60 fresh) = InProgress
   \<and> completionPercentage (recordQuizAttempt quiz_lesson 2000 [] 4 60 fresh) = Num 67
   \<and> status (updateStatus 1500 Completed fresh) \<noteq> NotStarted
   \<and> completionPercentage (recordQuizAttempt quiz_lesson 2000 [] 4 60
        (updateStatus 1500 Completed fresh)) = Num 100
   \<and> status (recordQuizAttempt quiz_lesson 2000 [] 4 60
        (updateStatus 1500 Completed fresh)) = Completed"
proof -
  have f: "\<not> js_ge (attemptPercentage quiz_lesson 4) (or_default (quiz_passingScore quiz_lesson) 70)"
    unfolding attemptPercentage_quiz_lesson_4 by (simp add: or_default_def quiz_lesson_def)
  have s: "status fresh = NotStarted"
    by (simp add: fresh_def new_Progress_def)
  have c: "status (updateStatus 1500 Completed fresh) = Completed"
    "completionPercentage (updateStatus 1500 Completed fresh) = Num 100"
    by (simp_all add: updateStatus_def)
  from C10_failing_attempt [OF f, of fresh 2000 "[]" 60]
       C10_failing_attempt [OF f, of "updateStatus 1500 Completed fresh" 2000 "[]" 60]
  show ?thesis
    using f s c by (simp add: attemptPercentage_quiz_lesson_4)
qed


lemma recordQuizAttempt_keeps_completed:
  assumes "status p = Completed" "completionPercentage p = Num 100" "completedAt p \<noteq> None"
  shows "status (recordQuizAttempt lesson now ans sc spent p) = Completed
       \<and> completionPercentage (recordQuizAttempt lesson now ans sc spent p) = Num 100
       \<and> completedAt (recordQuizAttempt lesson now ans sc spent p) \<noteq> None"
  using assms by (simp add: recordQuizAttempt_def Let_def)

lemma recordQuizAttempts_keep_completed:
  "status p = Completed \<Longrightarrow> completionPercentage p = Num 100 \<Longrightarrow> completedAt p \<noteq> None \<Longrightarrow>
   status (recordQuizAttempts lesson calls p) = Completed
   \<and> completionPercentage (recordQuizAttempts lesson calls p) = Num 100
   \<and> completedAt (recordQuizAttempts lesson calls p) \<noteq> None"
proof (induction calls arbitrary: p)
  case Nil
  then show ?case by simp
next
  case (Cons call calls)
  obtain now ans sc spent where call: "call = (now, ans, sc, spent)"
    by (cases call) auto
  from recordQuizAttempt_keeps_completed [OF Cons.prems, of lesson now ans sc spent]
  have "status (recordQuizAttempt lesson now ans sc spent p) = Completed"
    "completionPercentage (recordQuizAttempt lesson now ans sc spent p) = Num 100"
    "completedAt (recordQuizAttempt lesson now ans sc spent p) \<noteq> None"
    by simp_all
  from Cons.IH [OF this] call show ?case by simp
qed

lemma recordQuizAttempts_snoc:
  "recordQuizAttempts lesson (calls @ [(now, ans, sc, spent)]) p =
     recordQuizAttempt lesson now ans sc spent (recordQuizAttempts lesson calls p)"
  by (induction calls arbitrary: p) auto

text \<open>
  Claim C7, as amended. After a quiz attempt whose percentage meets the passing
  threshold (\<open>passingScore\<close>, 70 when unset), the progress is completed with
  \<open>completionPercentage\<close> 100 and \<open>completedAt\<close> set, and after any further attempts,
  passing or failing, the status is still completed, \<open>completionPercentage\<close> is still 100
  and \<open>completedAt\<close> is still set. The \<open>passed\<close> flag is that of the latest attempt: true
  exactly when that attempt's percentage meets the threshold.
\<close>

theorem C7_pass_is_terminal:
  assumes "js_ge (attemptPercentage lesson sc) (or_default (quiz_passingScore lesson) 70)"
  shows "status (recordQuizAttempt lesson now ans sc spent p) = Completed
       \<and> completionPercentage (recordQuizAttempt lesson now ans sc spent p) = Num 100
       \<and> completedAt (recordQuizAttempt lesson now ans sc spent p) = Some now
       \<and> quiz_passed (recordQuizAttempt lesson now ans sc spent p)
       \<and> status (recordQuizAttempts lesson later
            (recordQuizAttempt lesson now ans sc spent p)) = Completed
       \<and> completionPercentage (recordQuizAttempts lesson later
            (recordQuizAttempt lesson now ans sc spent p)) = Num 100
       \<and> completedAt (recordQuizAttempts lesson later
            (recordQuizAttempt lesson now ans sc spent p)) \<noteq> None
       \<and> (\<forall>calls now' ans' sc' spent'. later = calls @ [(now', ans', sc', spent')] \<longrightarrow>
            quiz_passed (recordQuizAttempts lesson later
              (recordQuizAttempt lesson now ans sc spent p)) =
            js_ge (attemptPercentage lesson sc') (or_default (quiz_passingScore lesson) 70))"
proof -
  let ?p1 = "recordQuizAttempt lesson now ans sc spent p"
  note first = recordQuizAttempt_pass [OF assms, of now ans spent p]
  have "completedAt ?p1 \<noteq> None"
    using first(3) by simp
  from recordQuizAttempts_keep_completed [OF first(1) first(2) this, of lesson later]
  show ?thesis
    using first assms
    by (auto simp: recordQuizAttempt_passed recordQuizAttempts_snoc)
qed

theorem C7_pass_is_terminal_witness:
  "js_ge (attemptPercentage quiz_lesson 5) (or_default (quiz_passingScore quiz_lesson) 70)
   \<and> status (recordQuizAttempts quiz_lesson [(3000, [], 4, 60)]
        (recordQuizAttempt quiz_lesson 2000 [] 5 60 fresh)) = Completed
   \<and> completionPercentage (recordQuizAttempts quiz_lesson [(3000, [], 4, 60)]
        (recordQuizAttempt quiz_lesson 2000 [] 5 60 fresh)) = Num 100
   \<and> quiz_passed (recordQuizAttempts quiz_lesson [(3000, [], 4, 60)]
        (recordQuizAttempt quiz_lesson 2000 [] 5 60 fresh)) = False"
proof -
  have f: "js_ge (attemptPercentage quiz_lesson 5) (or_default (quiz_passingScore quiz_lesson) 70)"
    unfolding attemptPercentage_quiz_lesson_5 by (simp add: or_default_def quiz_lesson_def)
  have g: "\<not> js_ge (attemptPercentage quiz_lesson 4) (or_default (quiz_passingScore quiz_lesson) 70)"
    unfolding attemptPercentage_quiz_lesson_4 by (simp add: or_default_def quiz_lesson_def)
  from C7_pass_is_terminal [OF f, of 2000 "[]" 60 fresh "[(3000, [], 4, 60)]"]
  show ?thesis using f g by simp
qed

text \<open>
  The claim as stated fails on its last part: after a passing attempt, a failing attempt
  resets the \<open>passed\<close> flag.
\<close>

theorem C7_passed_flag_counterexample:
  "js_ge (attemptPercentage quiz_lesson 5) (or_default (quiz_passingScore quiz_lesson) 70)
   \<and> quiz_passed (recordQuizAttempt quiz_lesson 2000 [] 5 60 fresh)
   \<and> \<not> quiz_passed (recordQuizAttempt quiz_lesson 3000 [] 4 60
          (recordQuizAttempt quiz_lesson 2000 [] 5 60 fresh))"
proof -
  have f: "js_ge (attemptPercentage quiz_lesson 5) (or_default (quiz_passingScore quiz_lesson) 70)"
    unfolding attemptPercentage_quiz_lesson_5 by (simp add: or_default_def quiz_lesson_def)
  have g: "\<not> js_ge (attemptPercentage quiz_lesson 4) (or_default (quiz_passingScore quiz_lesson) 70)"
    unfolding attemptPercentage_quiz_lesson_4 by (simp add: or_default_def quiz_lesson_def)
  show ?thesis
    using f g by (simp add: recordQuizAttempt_passed)
qed

section \<open>The invariant of a lesson progress\<close>

lemma lp_invariant_new_Progress: "lp_invariant (new_Progress u c l t)"
  by (simp add: lp_invariant_def new_Progress_def)

lemma updateWatchTime_quiz_attempts:
  "quiz_attempts (updateWatchTime lesson now s p) = quiz_attempts p"
  by (simp add: updateWatchTime_def Let_def split: option.splits)

lemma updateWatchTime_completedAt:
  "(completedAt p \<noteq> None) = (status p = Completed) \<Longrightarrow>
   (completedAt (updateWatchTime lesson now s p) \<noteq> None) =
     (status (updateWatchTime lesson now s p) = Completed)"
  by (simp add: updateWatchTime_def Let_def split: option.splits)

lemma lp_invariant_updateWatchTime:
  assumes "lp_invariant p" "0 \<le> watchTime p" "0 \<le> s"
  shows "lp_invariant (updateWatchTime lesson now s p)"
proof -
  from assms have "max (watchTime p) s \<le> totalWatchTime p + s"
    by (simp add: lp_invariant_def)
  with assms(1) updateWatchTime_completedAt [of p lesson now s] show ?thesis
    by (simp add: lp_invariant_def updateWatchTime_watchTime updateWatchTime_totalWatchTime
        updateWatchTime_quiz_attempts)
qed

lemma lp_invariant_recordQuizAttempt:
  assumes "lp_invariant p"
  shows "lp_invariant (recordQuizAttempt lesson now ans sc spent p)"
  using assms
  by (auto simp add: lp_invariant_def recordQuizAttempt_def Let_def)

lemma lp_invariant_addBookmark: "lp_invariant p \<Longrightarrow> lp_invariant (addBookmark ts txt p)"
  by (simp add: lp_invariant_def addBookmark_def)

lemma lp_invariant_addNote: "lp_invariant p \<Longrightarrow> lp_invariant (addNote c ts priv p)"
  by (simp add: lp_invariant_def addNote_def)

lemma lp_invariant_updateStatus:
  assumes "lp_invariant p" "st = Completed \<or> status p \<noteq> Completed"
  shows "lp_invariant (updateStatus now st p)"
  using assms
  by (auto simp add: lp_invariant_def updateStatus_def Let_def)

lemma perform_watchTime_nonneg:
  "0 \<le> watchTime p \<Longrightarrow> 0 \<le> watchTime (perform lesson now opr p)"
  by (cases opr)
    (simp_all add: updateWatchTime_watchTime recordQuizAttempt_def addBookmark_def
      addNote_def updateStatus_def Let_def)

lemma perform_attempts_prefix:
  "prefix (quiz_attempts p) (quiz_attempts (perform lesson now opr p))"
  by (cases opr)
    (simp_all add: updateWatchTime_def recordQuizAttempt_def addBookmark_def
      addNote_def updateStatus_def Let_def split: option.splits)

text \<open>
  Claim C8, as amended. On a progress whose \<open>watchTime\<close> is not negative (as it is from
  creation on), \<open>updateWatchTime\<close> with a non-negative value, \<open>recordQuizAttempt\<close>,
  \<open>addBookmark\<close>, \<open>addNote\<close>, a status update to completed, and a status update to
  another status on a progress that is not completed, each keep the invariant:
  \<open>completedAt\<close> is set if and only if the status is completed, \<open>totalWatchTime\<close> is at
  least \<open>watchTime\<close>, and the quiz attempts are only appended to and numbered from 1 on.
\<close>

theorem C8_invariant_kept:
  assumes "lp_invariant p" and "0 \<le> watchTime p" and "within_contract opr p"
  shows "lp_invariant (perform lesson now opr p)
       \<and> 0 \<le> watchTime (perform lesson now opr p)
       \<and> prefix (quiz_attempts p) (quiz_attempts (perform lesson now opr p))"
proof -
  have "lp_invariant (perform lesson now opr p)"
  proof (cases opr)
    case (RecordWatchTime s)
    with assms show ?thesis by (simp add: lp_invariant_updateWatchTime)
  next
    case (RecordQuizAttempt ans sc spent)
    with assms show ?thesis by (simp add: lp_invariant_recordQuizAttempt)
  next
    case (AddBookmark ts memo)
    with assms show ?thesis by (simp add: lp_invariant_addBookmark)
  next
    case (AddNote c ts priv)
    with assms show ?thesis by (simp add: lp_invariant_addNote)
  next
    case (UpdateStatus st)
    with assms show ?thesis by (simp add: lp_invariant_updateStatus)
  qed
  then show ?thesis
    using perform_watchTime_nonneg [OF assms(2)] perform_attempts_prefix by simp
qed

theorem C8_invariant_kept_witness:
  "lp_invariant fresh \<and> 0 \<le> watchTime fresh
   \<and> within_contract (RecordWatchTime 170) fresh
   \<and> lp_invariant (perform video_lesson 2000 (RecordWatchTime 170) fresh)
   \<and> status (perform video_lesson 2000 (RecordWatchTime 170) fresh) = Completed
   \<and> completedAt (perform video_lesson 2000 (RecordWatchTime 170) fresh) = Some 2000
   \<and> within_contract (RecordQuizAttempt [] 5 60) fresh
   \<and> lp_invariant (perform quiz_lesson 2000 (RecordQuizAttempt [] 5 60) fresh)
   \<and> map attemptNumber (quiz_attempts (perform quiz_lesson 2000 (RecordQuizAttempt [] 5 60) fresh))
       = [1]
   \<and> within_contract (UpdateStatus Completed) fresh
   \<and> lp_invariant (perform text_lesson 2000 (UpdateStatus Completed) fresh)
   \<and> completedAt (perform text_lesson 2000 (UpdateStatus Completed) fresh) = Some 2000"
proof -
  have i: "lp_invariant fresh"
    unfolding fresh_def by (rule lp_invariant_new_Progress)
  have w: "0 \<le> watchTime fresh"
    by (simp add: fresh_def new_Progress_def)
  have c: "within_contract (RecordWatchTime 170) fresh"
    "within_contract (RecordQuizAttempt [] 5 60) fresh"
    "within_contract (UpdateStatus Completed) fresh"
    by simp_all
  have v: "status (perform video_lesson 2000 (RecordWatchTime 170) fresh) = Completed"
    "completedAt (perform video_lesson 2000 (RecordWatchTime 170) fresh) = Some 2000"
    by (simp_all add: updateWatchTime_def video_lesson_def fresh_def new_Progress_def
        or_default_def Let_def percentage_170_of_200)
  have q: "map attemptNumber
      (quiz_attempts (perform quiz_lesson 2000 (RecordQuizAttempt [] 5 60) fresh)) = [1]"
    by (simp add: recordQuizAttempt_def fresh_def new_Progress_def Let_def)
  have u: "completedAt (perform text_lesson 2000 (UpdateStatus Completed) fresh) = Some 2000"
    by (simp add: updateStatus_def)
  from C8_invariant_kept [OF i w c(1), of video_lesson 2000]
       C8_invariant_kept [OF i w c(2), of quiz_lesson 2000]
       C8_invariant_kept [OF i w c(3), of text_lesson 2000]
  show ?thesis using i w c v q u by simp
qed

text \<open>
  The claim as stated fails for the explicit status update: on a completed progress a
  status update to in-progress leaves \<open>completedAt\<close> set.
\<close>

theorem C8_status_update_counterexample:
  "lp_invariant (updateStatus 1500 Completed fresh)
   \<and> \<not> lp_invariant (perform video_lesson 2000 (UpdateStatus InProgress)
          (updateStatus 1500 Completed fresh))"
  by (simp add: lp_invariant_def updateStatus_def fresh_def new_Progress_def)

section \<open>Enrollment: completion recompute\<close>

lemma updateProgress_none_published:
  "countPublished db (course e) = 0 \<Longrightarrow>
   updateProgress db now e = \<lparr>document = e, persisted = False, thrown = None\<rparr>"
  by (simp add: updateProgress_def)

lemma updateProgress_percentage:
  "0 < countPublished db (course e) \<Longrightarrow>
   enr_completionPercentage (document (updateProgress db now e)) =
     percent (length (completedLessons e)) (countPublished db (course e))"
  by (simp add: updateProgress_def Let_def)

lemma updateProgress_status:
  "0 < countPublished db (course e) \<Longrightarrow>
   enr_status (document (updateProgress db now e)) =
     (if enr_completionPercentage (document (updateProgress db now e)) \<ge> 100
         \<and> enr_status e = Active
      then CourseCompleted else enr_status e)"
  by (simp add: updateProgress_def Let_def)

lemma updateProgress_completionDate:
  "0 < countPublished db (course e) \<Longrightarrow>
   completionDate (document (updateProgress db now e)) =
     (if enr_completionPercentage (document (updateProgress db now e)) \<ge> 100
         \<and> enr_status e = Active
      then Some now else completionDate e)"
  by (simp add: updateProgress_def Let_def)

lemma updateProgress_completedLessons:
  "completedLessons (document (updateProgress db now e)) = completedLessons e"
  by (simp add: updateProgress_def Let_def)

lemma updateProgress_thrown: "thrown (updateProgress db now e) = None"
  by (simp add: updateProgress_def Let_def)

text \<open>
  Away from the half-way cases the two roundings to double do not reach the integer
  that \<^verbatim>\<open>Math.round\<close> picks.
\<close>

lemma percent_exact:
  fixes n t :: nat
  assumes "0 < t" "n < 2 ^ 32"
    and "frac (100 * of_nat n / of_nat t :: rat) \<noteq> 1 / 2"
  shows "percent n t = round (100 * of_nat n / of_nat t :: rat)"
proof -
  consider "n = 0" | "0 < n" "t < 2 ^ 53" | "2 ^ 53 \<le> t" by linarith
  then show ?thesis
  proof cases
    case 1
    then show ?thesis by (simp add: percent_zero)
  next
    case 2
    have z: "(100 * of_nat n / of_nat t :: rat) = of_int (100 * int n) / of_nat t"
      by simp
    from percentage_close [OF 2(1) assms(2) assms(1) 2(2)]
    have "round (fl (fl (of_nat n / of_nat t) * 100)) = round (100 * of_nat n / of_nat t :: rat)"
      using assms(3) by (intro round_stable [OF z assms(1)])
    then show ?thesis by (simp add: percent_def)
  next
    case 3
    from percent_small [OF assms(2) 3] show ?thesis by simp
  qed
qed

text \<open>
  Claim C3, as amended. For an enrollment with \<open>n\<close> completed lessons in a course with
  \<open>t\<close> published lessons (\<open>n\<close> below \<open>2^32\<close>, as the length of a JavaScript array is):
  when \<open>t > 0\<close>, \<open>updateProgress\<close> sets \<open>completionPercentage\<close> to
  \<open>round(100 * n / t)\<close> whenever \<open>100 * n / t\<close> is not half-way between two integers, and
  if the percentage it has set is at least 100 and the status is active, the status
  becomes completed and the completion date is set, otherwise status and completion
  date stay; when \<open>t = 0\<close> the enrollment is left as it is, status included, and is not
  saved. The call is never rejected, and a status other than active is never changed.
  Three of four gives 75 and the status stays; four of four on an active enrollment
  gives 100, completed, with the completion date set.
\<close>

theorem C3_updateProgress:
  assumes "length (completedLessons e) < 2 ^ 32"
  shows "(0 < countPublished db (course e) \<longrightarrow>
      (frac (100 * of_nat (length (completedLessons e))
               / of_nat (countPublished db (course e)) :: rat) \<noteq> 1 / 2 \<longrightarrow>
         enr_completionPercentage (document (updateProgress db now e)) =
           round (100 * of_nat (length (completedLessons e))
                    / of_nat (countPublished db (course e)) :: rat))
    \<and> (100 \<le> enr_completionPercentage (document (updateProgress db now e))
         \<and> enr_status e = Active \<longrightarrow>
          enr_status (document (updateProgress db now e)) = CourseCompleted
        \<and> completionDate (document (updateProgress db now e)) = Some now)
    \<and> (\<not> (100 \<le> enr_completionPercentage (document (updateProgress db now e))
            \<and> enr_status e = Active) \<longrightarrow>
          enr_status (document (updateProgress db now e)) = enr_status e
        \<and> completionDate (document (updateProgress db now e)) = completionDate e))
   \<and> (countPublished db (course e) = 0 \<longrightarrow>
        document (updateProgress db now e) = e \<and> \<not> persisted (updateProgress db now e))
   \<and> thrown (updateProgress db now e) = None
   \<and> (enr_status e \<noteq> Active \<longrightarrow>
        enr_status (document (updateProgress db now e)) = enr_status e)
   \<and> (length (completedLessons e) = 3 \<and> countPublished db (course e) = 4 \<longrightarrow>
        enr_completionPercentage (document (updateProgress db now e)) = 75
      \<and> enr_status (document (updateProgress db now e)) = enr_status e)
   \<and> (length (completedLessons e) = 4 \<and> countPublished db (course e) = 4
        \<and> enr_status e = Active \<longrightarrow>
        enr_completionPercentage (document (updateProgress db now e)) = 100
      \<and> enr_status (document (updateProgress db now e)) = CourseCompleted
      \<and> completionDate (document (updateProgress db now e)) = Some now)"
proof (cases "0 < countPublished db (course e)")
  case True
  note pc = updateProgress_percentage [OF True, of now]
  note st = updateProgress_status [OF True, of now]
  note cd = updateProgress_completionDate [OF True, of now]
  have a: "frac (100 * of_nat (length (completedLessons e))
               / of_nat (countPublished db (course e)) :: rat) \<noteq> 1 / 2 \<longrightarrow>
         enr_completionPercentage (document (updateProgress db now e)) =
           round (100 * of_nat (length (completedLessons e))
                    / of_nat (countPublished db (course e)) :: rat)"
    unfolding pc using percent_exact [OF True assms] by blast
  have b: "100 \<le> enr_completionPercentage (document (updateProgress db now e))
         \<and> enr_status e = Active \<longrightarrow>
          enr_status (document (updateProgress db now e)) = CourseCompleted
        \<and> completionDate (document (updateProgress db now e)) = Some now"
    using st cd by simp
  have c: "\<not> (100 \<le> enr_completionPercentage (document (updateProgress db now e))
            \<and> enr_status e = Active) \<longrightarrow>
          enr_status (document (updateProgress db now e)) = enr_status e
        \<and> completionDate (document (updateProgress db now e)) = completionDate e"
    using st cd by simp
  have d: "enr_status e \<noteq> Active \<longrightarrow>
        enr_status (document (updateProgress db now e)) = enr_status e"
    using st by simp
  have f: "length (completedLessons e) = 3 \<and> countPublished db (course e) = 4 \<longrightarrow>
        enr_completionPercentage (document (updateProgress db now e)) = 75
      \<and> enr_status (document (updateProgress db now e)) = enr_status e"
  proof
    assume h: "length (completedLessons e) = 3 \<and> countPublished db (course e) = 4"
    with pc have "enr_completionPercentage (document (updateProgress db now e)) = 75"
      by (simp add: percent_three_of_four)
    with st show "enr_completionPercentage (document (updateProgress db now e)) = 75
      \<and> enr_status (document (updateProgress db now e)) = enr_status e"
      by simp
  qed
  have g: "length (completedLessons e) = 4 \<and> countPublished db (course e) = 4
        \<and> enr_status e = Active \<longrightarrow>
        enr_completionPercentage (document (updateProgress db now e)) = 100
      \<and> enr_status (document (updateProgress db now e)) = CourseCompleted
      \<and> completionDate (document (updateProgress db now e)) = Some now"
  proof
    assume h: "length (completedLessons e) = 4 \<and> countPublished db (course e) = 4
        \<and> enr_status e = Active"
    with pc have "enr_completionPercentage (document (updateProgress db now e)) = 100"
      by (simp add: percent_four_of_four)
    with st cd h show "enr_completionPercentage (document (updateProgress db now e)) = 100
      \<and> enr_status (document (updateProgress db now e)) = CourseCompleted
      \<and> completionDate (document (updateProgress db now e)) = Some now"
      by simp
  qed
  from True a b c d f g show ?thesis by (simp add: updateProgress_thrown)
next
  case False
  then have "countPublished db (course e) = 0" by simp
  from updateProgress_none_published [OF this, of now] this show ?thesis by simp
qed

lemma countPublished_course_lessons: "countPublished course_lessons ''C1'' = 4"
  by (simp add: countPublished_def course_lessons_def video_lesson_def text_lesson_def
      quiz_lesson_def live_lesson_def)

theorem C3_updateProgress_witness:
  "length (completedLessons
      (enrolled\<lparr>completedLessons := [done_lesson ''L1'', done_lesson ''L2'', done_lesson ''L3'']\<rparr>))
     < 2 ^ 32
   \<and> countPublished course_lessons ''C1'' = 4
   \<and> frac (100 * 3 / 4 :: rat) \<noteq> 1 / 2
   \<and> round (100 * 3 / 4 :: rat) = 75
   \<and> enr_completionPercentage (document (updateProgress course_lessons 2000
        (enrolled\<lparr>completedLessons := [done_lesson ''L1'', done_lesson ''L2'', done_lesson ''L3'']\<rparr>)))
       = 75
   \<and> enr_status (document (updateProgress course_lessons 2000
        (enrolled\<lparr>completedLessons := [done_lesson ''L1'', done_lesson ''L2'', done_lesson ''L3'']\<rparr>)))
       = Active
   \<and> enr_completionPercentage (document (updateProgress course_lessons 2000
        (enrolled\<lparr>completedLessons :=
           [done_lesson ''L1'', done_lesson ''L2'', done_lesson ''L3'', done_lesson ''L4'']\<rparr>)))
       = 100
   \<and> enr_status (document (updateProgress course_lessons 2000
        (enrolled\<lparr>completedLessons :=
           [done_lesson ''L1'', done_lesson ''L2'', done_lesson ''L3'', done_lesson ''L4'']\<rparr>)))
       = CourseCompleted
   \<and> completionDate (document (updateProgress course_lessons 2000
        (enrolled\<lparr>completedLessons :=
           [done_lesson ''L1'', done_lesson ''L2'', done_lesson ''L3'', done_lesson ''L4'']\<rparr>)))
       = Some 2000
   \<and> document (updateProgress [] 2000 enrolled) = enrolled"
proof -
  have empty: "countPublished [] (course enrolled) = 0"
    by (simp add: countPublished_def)
  have c: "course enrolled = ''C1''" "enr_status enrolled = Active"
    "completedLessons enrolled = []"
    by (simp_all add: enrolled_def)
  have r: "round (100 * 3 / 4 :: rat) = 75" "frac (100 * 3 / 4 :: rat) \<noteq> 1 / 2"
    by (simp_all add: round_def frac_def floor_eq_iff)
  from C3_updateProgress [of
        "enrolled\<lparr>completedLessons := [done_lesson ''L1'', done_lesson ''L2'', done_lesson ''L3'']\<rparr>"
        course_lessons 2000]
       C3_updateProgress [of
        "enrolled\<lparr>completedLessons :=
           [done_lesson ''L1'', done_lesson ''L2'', done_lesson ''L3'', done_lesson ''L4'']\<rparr>"
        course_lessons 2000]
       C3_updateProgress [of enrolled "[]" 2000]
  show ?thesis
    using empty c r by (simp add: countPublished_course_lessons)
qed

lemma completed_once_document:
  "completed_once =
     \<lparr>document = enrolled
        \<lparr>completedLessons :=
           [\<lparr>cl_lesson = Some ''65f0c0ffee0000000000000a'', cl_completedAt = 2000,
             cl_watchTime = 0, cl_score = None\<rparr>],
         currentLesson := Some ''65f0c0ffee0000000000000b'',
         enr_completionPercentage := 100,
         enr_status := CourseCompleted,
         completionDate := Some 2000,
         enr_lastAccessedAt := 2000\<rparr>,
      persisted = True, thrown = None\<rparr>"
  by code_simp

lemma pending_document:
  "pending =
     enrolled
       \<lparr>completedLessons :=
          [\<lparr>cl_lesson = Some ''65f0c0ffee0000000000000a'', cl_completedAt = 2000,
            cl_watchTime = 0, cl_score = None\<rparr>,
           \<lparr>cl_lesson = Some ''65f0c0ffee0000000000000b'', cl_completedAt = 3000,
            cl_watchTime = 0, cl_score = None\<rparr>],
        currentLesson := Some ''65f0c0ffee0000000000000b'',
        enr_completionPercentage := 100,
        enr_status := Active,
        completionDate := Some 2000,
        enr_lastAccessedAt := 2000\<rparr>"
  by code_simp

lemma countPublished_none_published: "countPublished none_published ''C1'' = 0"
  by code_simp

lemma twenty_third_lesson:
  "(\<lambda>r. (thrown r, length (completedLessons (document r)),
          enr_completionPercentage (document r), enr_status (document r)))
     (markLessonCompleted forty_lessons 2022 (numbered_id 22) 0 None twenty_two_done)
   = (None, 23, 57, Active)"
  by code_simp

lemma countPublished_forty_lessons: "countPublished forty_lessons ''C1'' = 40"
  by code_simp

text \<open>
  The claim as stated fails where no lesson is published: an active enrollment whose
  percentage is 100 keeps that percentage and is not completed. And it fails on a
  half-way case: the 23rd of 40 lessons gives 57, where \<open>round(100 * 23 / 40)\<close> is 58.
\<close>

theorem C3_recompute_counterexample:
  "persisted completed_once \<and> thrown completed_once = None
   \<and> enr_completionPercentage (document completed_once) = 100
   \<and> enr_status (document completed_once) = CourseCompleted
   \<and> updateEnrollmentStatus (Some (document completed_once)) admin Active
       = (Status200 ''Enrollment status updated'', Some reactivated)
   \<and> countPublished none_published (course pending) = 0
   \<and> length (completedLessons pending) = 2
   \<and> enr_completionPercentage pending = 100
   \<and> enr_status pending = Active
   \<and> updateProgress none_published 3000 pending
       = \<lparr>document = pending, persisted = False, thrown = None\<rparr>
   \<and> length (completedLessons twenty_two_done) = 22
   \<and> countPublished forty_lessons (course twenty_two_done) = 40
   \<and> thrown (markLessonCompleted forty_lessons 2022 (numbered_id 22) 0 None twenty_two_done)
       = None
   \<and> length (completedLessons (document
        (markLessonCompleted forty_lessons 2022 (numbered_id 22) 0 None twenty_two_done))) = 23
   \<and> enr_completionPercentage (document
        (markLessonCompleted forty_lessons 2022 (numbered_id 22) 0 None twenty_two_done)) = 57
   \<and> round (100 * 23 / 40 :: rat) = 58"
proof -
  have a: "updateEnrollmentStatus (Some (document completed_once)) admin Active
       = (Status200 ''Enrollment status updated'', Some reactivated)"
    by (simp add: updateEnrollmentStatus_def admin_def reactivated_def)
  have b: "course pending = ''C1''" "length (completedLessons pending) = 2"
    "enr_completionPercentage pending = 100" "enr_status pending = Active"
    by (simp_all add: pending_document enrolled_def)
  have c: "updateProgress none_published 3000 pending
       = \<lparr>document = pending, persisted = False, thrown = None\<rparr>"
    by (rule updateProgress_none_published) (simp add: b countPublished_none_published)
  have d: "length (completedLessons twenty_two_done) = 22"
    "course twenty_two_done = ''C1''"
    by (simp_all add: twenty_two_done_def enrolled_def)
  have e: "thrown (markLessonCompleted forty_lessons 2022 (numbered_id 22) 0 None twenty_two_done)
       = None"
    "length (completedLessons (document
        (markLessonCompleted forty_lessons 2022 (numbered_id 22) 0 None twenty_two_done))) = 23"
    "enr_completionPercentage (document
        (markLessonCompleted forty_lessons 2022 (numbered_id 22) 0 None twenty_two_done)) = 57"
    using twenty_third_lesson by simp_all
  have f: "round (100 * 23 / 40 :: rat) = 58"
    by (simp add: round_def floor_eq_iff)
  show ?thesis
    using a b c d e f
    by (simp add: completed_once_document countPublished_none_published
        countPublished_forty_lessons)
qed

section \<open>Enrollment: marking a lesson completed\<close>

lemma castObjectId_upper:
  "castObjectId ''65F0C0FFEE0000000000000A'' = Some ''65f0c0ffee0000000000000a''"
  by code_simp

lemma marked_once_document:
  "marked_once =
     \<lparr>document = enrolled
        \<lparr>completedLessons :=
           [\<lparr>cl_lesson = Some ''65f0c0ffee0000000000000a'', cl_completedAt = 2000,
             cl_watchTime = 0, cl_score = None\<rparr>],
         currentLesson := Some ''65f0c0ffee0000000000000b'',
         enr_completionPercentage := 25,
         enr_lastAccessedAt := 2000\<rparr>,
      persisted = True, thrown = None\<rparr>"
  by code_simp

lemma marked_twice_document:
  "marked_twice =
     \<lparr>document = enrolled
        \<lparr>completedLessons :=
           [\<lparr>cl_lesson = Some ''65f0c0ffee0000000000000a'', cl_completedAt = 2000,
             cl_watchTime = 0, cl_score = None\<rparr>,
            \<lparr>cl_lesson = Some ''65f0c0ffee0000000000000a'', cl_completedAt = 3000,
             cl_watchTime = 0, cl_score = None\<rparr>],
         currentLesson := Some ''65f0c0ffee0000000000000b'',
         enr_completionPercentage := 50,
         enr_lastAccessedAt := 3000\<rparr>,
      persisted = True, thrown = None\<rparr>"
  by code_simp

lemma status_request_upper:
  "updateLessonProgress catalog (Some enrolled) None 2000
     (status_request ''65F0C0FFEE0000000000000A'' Completed) =
   \<lparr>res_reply = Replied 200,
    res_progress = Some (updateStatus 2000 Completed
      (new_Progress ''u1'' ''C1'' ''65f0c0ffee0000000000000a'' 2000)),
    res_enrollment = Some marked_once\<rparr>"
proof -
  have l: "ltype lesson_a = Video" "lesson_course lesson_a = ''C1''"
    by (simp_all add: lesson_a_def video_lesson_def)
  have r: "params_id (status_request ''65F0C0FFEE0000000000000A'' Completed)
        = ''65F0C0FFEE0000000000000A''"
    "req_user_id (status_request ''65F0C0FFEE0000000000000A'' Completed) = ''u1''"
    "body_watchTime (status_request ''65F0C0FFEE0000000000000A'' Completed) = None"
    "body_status (status_request ''65F0C0FFEE0000000000000A'' Completed) = Some Completed"
    by (simp_all add: status_request_def)
  have s: "status (updateStatus 2000 Completed
      (new_Progress ''u1'' ''C1'' ''65f0c0ffee0000000000000a'' 2000)) = Completed"
    by (simp add: updateStatus_def)
  have t: "thrown marked_once = None"
    by (simp add: marked_once_document)
  have m: "markLessonCompleted catalog 2000 ''65F0C0FFEE0000000000000A'' 0 None enrolled
        = marked_once"
    by (simp add: marked_once_def)
  show ?thesis
    by (simp add: updateLessonProgress_def r castObjectId_upper findById_lesson_a l s m t Let_def)
qed

text \<open>
  Claim C2, evaluated. The claim says that a second \<open>markLessonCompleted\<close> with the same
  lesson id changes nothing. The method stores the id as Mongoose casts it, in lower
  case, and compares the stored ids with the id as it was passed: for a lesson id
  written in upper case, which the controller accepts and passes on, the entry is never
  found. An active enrollment in a course of four published lessons goes to one entry
  and 25 per cent on the first call and to two entries and 50 per cent on the second.
\<close>

theorem C2_markLessonCompleted_repeats:
  "castObjectId ''65F0C0FFEE0000000000000A'' = Some ''65f0c0ffee0000000000000a''
   \<and> res_reply (updateLessonProgress catalog (Some enrolled) None 2000
        (status_request ''65F0C0FFEE0000000000000A'' Completed)) = Replied 200
   \<and> res_enrollment (updateLessonProgress catalog (Some enrolled) None 2000
        (status_request ''65F0C0FFEE0000000000000A'' Completed)) = Some marked_once
   \<and> marked_once = markLessonCompleted catalog 2000 ''65F0C0FFEE0000000000000A'' 0 None enrolled
   \<and> thrown marked_once = None \<and> persisted marked_once
   \<and> map cl_lesson (completedLessons (document marked_once))
       = [Some ''65f0c0ffee0000000000000a'']
   \<and> enr_completionPercentage (document marked_once) = 25
   \<and> enr_status (document marked_once) = Active
   \<and> marked_twice = markLessonCompleted catalog 3000 ''65F0C0FFEE0000000000000A'' 0 None
                        (document marked_once)
   \<and> thrown marked_twice = None \<and> persisted marked_twice
   \<and> map cl_lesson (completedLessons (document marked_twice))
       = [Some ''65f0c0ffee0000000000000a'', Some ''65f0c0ffee0000000000000a'']
   \<and> enr_completionPercentage (document marked_twice) = 50
   \<and> document marked_twice \<noteq> document marked_once"
proof -
  have a: "marked_once = markLessonCompleted catalog 2000 ''65F0C0FFEE0000000000000A'' 0 None enrolled"
    by (simp add: marked_once_def)
  have b: "marked_twice = markLessonCompleted catalog 3000 ''65F0C0FFEE0000000000000A'' 0 None
                        (document marked_once)"
    by (simp add: marked_twice_def)
  have c: "thrown marked_once = None \<and> persisted marked_once
     \<and> map cl_lesson (completedLessons (document marked_once))
         = [Some ''65f0c0ffee0000000000000a'']
     \<and> enr_completionPercentage (document marked_once) = 25
     \<and> enr_status (document marked_once) = Active"
    by (simp add: marked_once_document enrolled_def)
  have d: "thrown marked_twice = None \<and> persisted marked_twice
     \<and> map cl_lesson (completedLessons (document marked_twice))
         = [Some ''65f0c0ffee0000000000000a'', Some ''65f0c0ffee0000000000000a'']
     \<and> enr_completionPercentage (document marked_twice) = 50"
    by (simp add: marked_twice_document enrolled_def)
  have e: "document marked_twice \<noteq> document marked_once"
  proof
    assume "document marked_twice = document marked_once"
    then have "enr_completionPercentage (document marked_twice)
        = enr_completionPercentage (document marked_once)"
      by simp
    with c d show False by simp
  qed
  from a b c d e castObjectId_upper show ?thesis
    unfolding status_request_upper by simp
qed

text \<open>
  For an id in the form in which it is stored, a call that was not rejected is not
  repeated: the second call finds the entry and leaves the document as it is.
\<close>

lemma find_completed_append:
  "find_completed xs lid = Inr None \<Longrightarrow>
   find_completed (xs @ [cl]) lid =
     (case cl_lesson cl of
        None \<Rightarrow> Inl TypeError
      | Some stored \<Rightarrow> if stored = lid then Inr (Some cl) else Inr None)"
  by (induction xs) (auto split: option.splits if_splits)

lemma markLessonCompleted_again:
  assumes "castObjectId lid = Some lid"
    and "thrown (markLessonCompleted db now lid wt sc e) = None"
  shows "markLessonCompleted db' now' lid wt' sc' (document (markLessonCompleted db now lid wt sc e))
         = \<lparr>document = document (markLessonCompleted db now lid wt sc e),
            persisted = False, thrown = None\<rparr>"
proof (cases "find_completed (completedLessons e) lid")
  case (Inl err)
  with assms(2) show ?thesis by (simp add: markLessonCompleted_def)
next
  case (Inr found)
  show ?thesis
  proof (cases found)
    case (Some cl)
    with Inr show ?thesis by (simp add: markLessonCompleted_def)
  next
    case None
    let ?entry = "\<lparr>cl_lesson = Some lid, cl_completedAt = now, cl_watchTime = wt, cl_score = sc\<rparr>"
    from Inr None have f: "find_completed (completedLessons e) lid = Inr None" by simp
    have "completedLessons (document (markLessonCompleted db now lid wt sc e))
        = completedLessons e @ [?entry]"
      using f assms
      by (simp add: markLessonCompleted_def Let_def updateProgress_completedLessons
          split: option.splits)
    moreover have "find_completed (completedLessons e @ [?entry]) lid = Inr (Some ?entry)"
      using find_completed_append [OF f, of ?entry] by simp
    ultimately show ?thesis by (simp add: markLessonCompleted_def)
  qed
qed

section \<open>Certificates\<close>

lemma digit_char_not_dash: "n < 10 \<Longrightarrow> digit_char n \<noteq> CHR ''-''"
proof -
  assume "n < 10"
  then have "digit_char n \<in> set ''0123456789''"
    unfolding digit_char_def by (intro nth_mem) simp
  then show ?thesis by auto
qed

lemma show_nat_no_dash: "CHR ''-'' \<notin> set (show_nat n)"
proof (induction n rule: show_nat.induct)
  case (1 n)
  show ?case
  proof (cases "n < 10")
    case True
    then show ?thesis
      using digit_char_not_dash [of n] by (simp add: show_nat.simps [of n])
  next
    case False
    with 1 show ?thesis
      using digit_char_not_dash [of "n mod 10"] by (simp add: show_nat.simps [of n])
  qed
qed

lemma split_at_first:
  "c \<notin> set a \<Longrightarrow> c \<notin> set a' \<Longrightarrow> a @ c # b = a' @ c # b' \<Longrightarrow> a = a' \<and> b = b'"
proof (induction a arbitrary: a')
  case Nil
  then show ?case by (cases a') auto
next
  case (Cons x a)
  then show ?case by (cases a') auto
qed

lemma certificate_ids_differ:
  assumes "i \<noteq> i'"
  shows "''CERT-'' @ show_nat t @ ''-'' @ i \<noteq> ''CERT-'' @ show_nat t' @ ''-'' @ i'"
proof
  assume "''CERT-'' @ show_nat t @ ''-'' @ i = ''CERT-'' @ show_nat t' @ ''-'' @ i'"
  then have "show_nat t @ CHR ''-'' # i = show_nat t' @ CHR ''-'' # i'"
    by simp
  from split_at_first [OF show_nat_no_dash show_nat_no_dash this] assms
  show False by simp
qed

lemma generateCertificate_eligible:
  assumes "enr_status e = CourseCompleted" "\<not> certificateIssued e"
  shows "generateCertificate now e =
           (e\<lparr>certificateId := Some (''CERT-'' @ show_nat now @ ''-'' @ enr_id e),
              certificateIssued := True\<rparr>,
            Some (''CERT-'' @ show_nat now @ ''-'' @ enr_id e))"
  using assms by (simp add: generateCertificate_def Let_def)

lemma generateCertificate_not_eligible:
  assumes "enr_status e \<noteq> CourseCompleted \<or> certificateIssued e"
  shows "generateCertificate now e = (e, None)"
  using assms by (auto simp add: generateCertificate_def)


lemma handler_not_found: "generateCertificate_handler None u now = (Status404, None)"
  by (simp add: generateCertificate_handler_def)

lemma handler_no_student:
  "pop_student pe = None \<Longrightarrow>
   generateCertificate_handler (Some pe) u now = (Status500, Some (doc pe))"
  by (simp add: generateCertificate_handler_def)

lemma handler_not_authorized:
  "pop_student pe = Some sid \<Longrightarrow> sid \<noteq> user_id u \<Longrightarrow> role u \<noteq> ''admin'' \<Longrightarrow>
   generateCertificate_handler (Some pe) u now = (Status403, Some (doc pe))"
  by (simp add: generateCertificate_handler_def)

lemma handler_not_completed:
  "pop_student pe = Some sid \<Longrightarrow> sid = user_id u \<or> role u = ''admin'' \<Longrightarrow>
   enr_status (doc pe) \<noteq> CourseCompleted \<Longrightarrow>
   generateCertificate_handler (Some pe) u now =
     (Status400 ''Course must be completed to generate certificate'', Some (doc pe))"
  by (simp add: generateCertificate_handler_def)

lemma handler_no_course:
  "pop_student pe = Some sid \<Longrightarrow> sid = user_id u \<or> role u = ''admin'' \<Longrightarrow>
   enr_status (doc pe) = CourseCompleted \<Longrightarrow> pop_course pe = None \<Longrightarrow>
   generateCertificate_handler (Some pe) u now = (Status500, Some (doc pe))"
  by (simp add: generateCertificate_handler_def)

lemma handler_not_enabled:
  "pop_student pe = Some sid \<Longrightarrow> sid = user_id u \<or> role u = ''admin'' \<Longrightarrow>
   enr_status (doc pe) = CourseCompleted \<Longrightarrow> pop_course pe = Some c \<Longrightarrow>
   \<not> certificate_enabled c \<Longrightarrow>
   generateCertificate_handler (Some pe) u now =
     (Status400 ''Certificates are not enabled for this course'', Some (doc pe))"
  by (simp add: generateCertificate_handler_def)

lemma handler_already_issued:
  "pop_student pe = Some sid \<Longrightarrow> sid = user_id u \<or> role u = ''admin'' \<Longrightarrow>
   enr_status (doc pe) = CourseCompleted \<Longrightarrow> pop_course pe = Some c \<Longrightarrow>
   certificate_enabled c \<Longrightarrow> certificateIssued (doc pe) \<Longrightarrow>
   generateCertificate_handler (Some pe) u now =
     (Status400 ''Certificate already exists or could not be generated'', Some (doc pe))"
  by (simp add: generateCertificate_handler_def generateCertificate_not_eligible)

lemma handler_issues:
  "pop_student pe = Some sid \<Longrightarrow> sid = user_id u \<or> role u = ''admin'' \<Longrightarrow>
   enr_status (doc pe) = CourseCompleted \<Longrightarrow> pop_course pe = Some c \<Longrightarrow>
   certificate_enabled c \<Longrightarrow> \<not> certificateIssued (doc pe) \<Longrightarrow>
   generateCertificate_handler (Some pe) u now =
     (Status200 (''CERT-'' @ show_nat now @ ''-'' @ enr_id (doc pe)),
      Some ((doc pe)\<lparr>certificateId := Some (''CERT-'' @ show_nat now @ ''-'' @ enr_id (doc pe)),
                     certificateIssued := True\<rparr>))"
  by (simp add: generateCertificate_handler_def generateCertificate_eligible)

text \<open>Every request falls under one of the eight cases above.\<close>

lemma handler_outcomes:
  "generateCertificate_handler found u now = (Status404, None) \<and> found = None
   \<or> (\<exists>pe. found = Some pe \<and> snd (generateCertificate_handler found u now) = Some (doc pe)
          \<and> fst (generateCertificate_handler found u now) \<in>
              {Status500, Status403,
               Status400 ''Course must be completed to generate certificate'',
               Status400 ''Certificates are not enabled for this course'',
               Status400 ''Certificate already exists or could not be generated''})
   \<or> (\<exists>pe c. found = Some pe \<and> enr_status (doc pe) = CourseCompleted
          \<and> \<not> certificateIssued (doc pe) \<and> pop_course pe = Some c \<and> certificate_enabled c
          \<and> generateCertificate_handler found u now =
              (Status200 (''CERT-'' @ show_nat now @ ''-'' @ enr_id (doc pe)),
               Some ((doc pe)\<lparr>certificateId :=
                                Some (''CERT-'' @ show_nat now @ ''-'' @ enr_id (doc pe)),
                              certificateIssued := True\<rparr>)))"
proof (cases found)
  case None
  then show ?thesis by (simp add: handler_not_found)
next
  case (Some pe)
  show ?thesis
  proof (cases "pop_student pe")
    case None
    from handler_no_student [OF None, of u now] Some show ?thesis by simp
  next
    case student: (Some sid)
    show ?thesis
    proof (cases "sid = user_id u \<or> role u = ''admin''")
      case False
      then have "sid \<noteq> user_id u" "role u \<noteq> ''admin''" by simp_all
      from handler_not_authorized [OF student this, of now] Some show ?thesis by simp
    next
      case auth: True
      show ?thesis
      proof (cases "enr_status (doc pe) = CourseCompleted")
        case False
        from handler_not_completed [OF student auth False, of now] Some show ?thesis by simp
      next
        case completed: True
        show ?thesis
        proof (cases "pop_course pe")
          case None
          from handler_no_course [OF student auth completed None, of now] Some
          show ?thesis by simp
        next
          case course: (Some c)
          show ?thesis
          proof (cases "certificate_enabled c")
            case False
            from handler_not_enabled [OF student auth completed course False, of now] Some
            show ?thesis by simp
          next
            case enabled: True
            show ?thesis
            proof (cases "certificateIssued (doc pe)")
              case True
              from handler_already_issued [OF student auth completed course enabled True, of now]
                Some
              show ?thesis by simp
            next
              case False
              from handler_issues [OF student auth completed course enabled False, of now]
                Some completed course enabled False
              show ?thesis by simp
            qed
          qed
        qed
      qed
    qed
  qed
qed


lemma handler_issued_id:
  assumes "fst (generateCertificate_handler found u now) = Status200 cid"
  shows "\<exists>pe c. found = Some pe \<and> enr_status (doc pe) = CourseCompleted
           \<and> \<not> certificateIssued (doc pe) \<and> pop_course pe = Some c \<and> certificate_enabled c
           \<and> cid = ''CERT-'' @ show_nat now @ ''-'' @ enr_id (doc pe)"
  using handler_outcomes [of found u now] assms by auto

lemma handler_refusal_keeps_enrollment:
  assumes "\<forall>cid. fst (generateCertificate_handler found u now) \<noteq> Status200 cid"
  shows "snd (generateCertificate_handler found u now) = map_option doc found"
  using handler_outcomes [of found u now] assms by auto

text \<open>
  Claim C5. The certificate request issues a certificate only for an enrollment that is
  completed, has no certificate yet, and belongs to a course with certificates enabled;
  every other outcome leaves the enrollment as it was. For such an enrollment (found,
  and requested by its student or an admin) it stores the new certificate id and sets
  \<open>certificateIssued\<close>; a second request on the resulting enrollment issues nothing and
  leaves id and flag in place. Ids issued for enrollments with different \<open>_id\<close>s differ.
\<close>

theorem C5_certificate:
  "(\<forall>cid. fst (generateCertificate_handler found u now) = Status200 cid \<longrightarrow>
      (\<exists>pe c. found = Some pe \<and> enr_status (doc pe) = CourseCompleted
         \<and> \<not> certificateIssued (doc pe) \<and> pop_course pe = Some c \<and> certificate_enabled c))
   \<and> ((\<forall>cid. fst (generateCertificate_handler found u now) \<noteq> Status200 cid) \<longrightarrow>
        snd (generateCertificate_handler found u now) = map_option doc found)
   \<and> (enr_status (doc pe) = CourseCompleted \<and> \<not> certificateIssued (doc pe)
        \<and> pop_course pe = Some c \<and> certificate_enabled c
        \<and> pop_student pe = Some sid \<and> (sid = user_id u \<or> role u = ''admin'') \<longrightarrow>
        (\<exists>cid e'. generateCertificate_handler (Some pe) u now = (Status200 cid, Some e')
           \<and> e' = (doc pe)\<lparr>certificateId := Some cid, certificateIssued := True\<rparr>
           \<and> generateCertificate_handler (Some (pe\<lparr>doc := e'\<rparr>)) u now' =
               (Status400 ''Certificate already exists or could not be generated'', Some e')))
   \<and> (fst (generateCertificate_handler (Some pe1) u1 t1) = Status200 c1
        \<and> fst (generateCertificate_handler (Some pe2) u2 t2) = Status200 c2
        \<and> enr_id (doc pe1) \<noteq> enr_id (doc pe2) \<longrightarrow> c1 \<noteq> c2)"
proof (intro conjI allI impI)
  fix cid
  assume "fst (generateCertificate_handler found u now) = Status200 cid"
  from handler_issued_id [OF this]
  show "\<exists>pe c. found = Some pe \<and> enr_status (doc pe) = CourseCompleted
         \<and> \<not> certificateIssued (doc pe) \<and> pop_course pe = Some c \<and> certificate_enabled c"
    by blast
next
  assume "\<forall>cid. fst (generateCertificate_handler found u now) \<noteq> Status200 cid"
  then show "snd (generateCertificate_handler found u now) = map_option doc found"
    by (rule handler_refusal_keeps_enrollment)
next
  assume h: "enr_status (doc pe) = CourseCompleted \<and> \<not> certificateIssued (doc pe)
        \<and> pop_course pe = Some c \<and> certificate_enabled c
        \<and> pop_student pe = Some sid \<and> (sid = user_id u \<or> role u = ''admin'')"
  let ?cid = "''CERT-'' @ show_nat now @ ''-'' @ enr_id (doc pe)"
  let ?e = "(doc pe)\<lparr>certificateId := Some ?cid, certificateIssued := True\<rparr>"
  from h have st: "pop_student pe = Some sid" and au: "sid = user_id u \<or> role u = ''admin''"
    and co: "enr_status (doc pe) = CourseCompleted" and cr: "pop_course pe = Some c"
    and en: "certificate_enabled c" and ni: "\<not> certificateIssued (doc pe)"
    by simp_all
  have first: "generateCertificate_handler (Some pe) u now = (Status200 ?cid, Some ?e)"
    using st au co cr en ni by (rule handler_issues)
  have "generateCertificate_handler (Some (pe\<lparr>doc := ?e\<rparr>)) u now' =
      (Status400 ''Certificate already exists or could not be generated'',
       Some (doc (pe\<lparr>doc := ?e\<rparr>)))"
  proof (rule handler_already_issued)
    show "pop_student (pe\<lparr>doc := ?e\<rparr>) = Some sid" using st by simp
    show "sid = user_id u \<or> role u = ''admin''" by (rule au)
    show "enr_status (doc (pe\<lparr>doc := ?e\<rparr>)) = CourseCompleted" using co by simp
    show "pop_course (pe\<lparr>doc := ?e\<rparr>) = Some c" using cr by simp
    show "certificate_enabled c" by (rule en)
    show "certificateIssued (doc (pe\<lparr>doc := ?e\<rparr>))" by simp
  qed
  with first
  show "\<exists>cid e'. generateCertificate_handler (Some pe) u now = (Status200 cid, Some e')
           \<and> e' = (doc pe)\<lparr>certificateId := Some cid, certificateIssued := True\<rparr>
           \<and> generateCertificate_handler (Some (pe\<lparr>doc := e'\<rparr>)) u now' =
               (Status400 ''Certificate already exists or could not be generated'', Some e')"
    by simp
next
  assume h: "fst (generateCertificate_handler (Some pe1) u1 t1) = Status200 c1
        \<and> fst (generateCertificate_handler (Some pe2) u2 t2) = Status200 c2
        \<and> enr_id (doc pe1) \<noteq> enr_id (doc pe2)"
  from h handler_issued_id [of "Some pe1" u1 t1 c1]
  have 1: "c1 = ''CERT-'' @ show_nat t1 @ ''-'' @ enr_id (doc pe1)" by auto
  from h handler_issued_id [of "Some pe2" u2 t2 c2]
  have 2: "c2 = ''CERT-'' @ show_nat t2 @ ''-'' @ enr_id (doc pe2)" by auto
  from h have "enr_id (doc pe1) \<noteq> enr_id (doc pe2)" by simp
  from certificate_ids_differ [OF this, of t1 t2] show "c1 \<noteq> c2"
    unfolding 1 2 .
qed

section \<open>Certificates: a request on sample enrollments\<close>

lemma show_nat_2000: "show_nat 2000 = ''2000''"
  by (simp add: show_nat.simps digit_char_def)

lemma handler_finished:
  "generateCertificate_handler (Some (populated finished)) learner 2000 =
     (Status200 ''CERT-2000-E1'', Some certified)"
  by (simp add: generateCertificate_handler_def generateCertificate_def populated_def
      finished_def enrolled_def learner_def certified_def show_nat_2000 Let_def)

lemma handler_enrolled:
  "generateCertificate_handler (Some (populated enrolled)) learner 2000 =
     (Status400 ''Course must be completed to generate certificate'', Some enrolled)"
  by (simp add: generateCertificate_handler_def populated_def enrolled_def learner_def)

theorem C5_certificate_witness:
  "generateCertificate_handler (Some (populated enrolled)) learner 2000 =
     (Status400 ''Course must be completed to generate certificate'', Some enrolled)
   \<and> enr_status finished = CourseCompleted \<and> \<not> certificateIssued finished
   \<and> generateCertificate_handler (Some (populated finished)) learner 2000 =
       (Status200 ''CERT-2000-E1'', Some certified)
   \<and> certificateIssued certified \<and> certificateId certified = Some ''CERT-2000-E1''
   \<and> generateCertificate_handler (Some ((populated finished)\<lparr>doc := certified\<rparr>)) learner 3000 =
       (Status400 ''Certificate already exists or could not be generated'', Some certified)
   \<and> fst (generateCertificate_handler (Some (populated (finished\<lparr>enr_id := ''E2''\<rparr>))) learner 2000)
       \<noteq> Status200 ''CERT-2000-E1''"
proof -
  have e: "enr_status finished = CourseCompleted" "\<not> certificateIssued finished"
    "pop_course (populated finished) = Some \<lparr>certificate_enabled = True\<rparr>"
    "pop_student (populated finished) = Some ''u1''" "user_id learner = ''u1''"
    "doc (populated finished) = finished"
    by (simp_all add: finished_def enrolled_def populated_def learner_def)
  have c: "certified = finished\<lparr>certificateId := Some ''CERT-2000-E1'', certificateIssued := True\<rparr>"
    by (simp add: certified_def)
  have other: "\<exists>cid. fst (generateCertificate_handler
      (Some (populated (finished\<lparr>enr_id := ''E2''\<rparr>))) learner 2000) = Status200 cid"
    by (simp add: generateCertificate_handler_def generateCertificate_def populated_def
      finished_def enrolled_def learner_def Let_def)
  have d: "doc (populated enrolled) = enrolled"
    by (simp add: populated_def)
  have ids: "enr_id (doc (populated finished)) \<noteq> enr_id (doc (populated (finished\<lparr>enr_id := ''E2''\<rparr>)))"
    by (simp add: populated_def finished_def enrolled_def)
  from other obtain cid where cid: "fst (generateCertificate_handler
      (Some (populated (finished\<lparr>enr_id := ''E2''\<rparr>))) learner 2000) = Status200 cid"
    by blast
  from C5_certificate [of "Some (populated enrolled)" learner 2000 "populated finished"
      "\<lparr>certificate_enabled = True\<rparr>" "''u1''" 3000
      "populated finished" learner 2000 "''CERT-2000-E1''"
      "populated (finished\<lparr>enr_id := ''E2''\<rparr>)" learner 2000 cid]
  have "snd (generateCertificate_handler (Some (populated enrolled)) learner 2000) = Some enrolled"
    and "generateCertificate_handler (Some ((populated finished)\<lparr>doc := certified\<rparr>)) learner 3000 =
       (Status400 ''Certificate already exists or could not be generated'', Some certified)"
    and "cid \<noteq> ''CERT-2000-E1''"
    using e c cid ids d
    by (auto simp add: handler_finished handler_enrolled)
  with cid show ?thesis
    using e by (simp add: handler_finished handler_enrolled certified_def)
qed

section \<open>Analytics: the course progress summary\<close>

text \<open>
  Claim C9. For a user without progress records the summary counts 0 completed
  lessons and an overall progress of 0, whatever the course's lessons are; its
  \<open>lastAccessedAt\<close> is \<^verbatim>\<open>Math.max()\<close> of no arguments, which is \<open>-Infinity\<close>.
\<close>

theorem C9_empty_progress_summary:
  "getUserCourseProgress lessonDb [] userId courseId =
     \<lparr>totalLessons = countPublished lessonDb courseId,
      n_completedLessons = 0,
      overallProgress = 0,
      progressData = [],
      last_accessed = NegInfinity\<rparr>"
  by (simp add: getUserCourseProgress_def countPublished_def Math_max_def Let_def percent_zero)

lemma Math_max_two: "Math_max [Num 1000, Num 3000] = Num 3000"
  by (simp add: Math_max_def)

section \<open>JSON texts are read back uniquely\<close>

lemma below_ten: "(n::nat) < 10 \<Longrightarrow> n \<in> {0, 1, 2, 3, 4, 5, 6, 7, 8, 9}"
  by auto


lemma digit_val_digit_char: "n < 10 \<Longrightarrow> digit_val (digit_char n) = n"
  using below_ten [of n] by (auto simp: digit_char_def digit_val_def)


lemma is_digit_digit_char: "n < 10 \<Longrightarrow> is_digit (digit_char n)"
  unfolding is_digit_def digit_char_def by (intro nth_mem) simp

lemma nat_of_digits_snoc: "nat_of_digits (s @ [c]) = 10 * nat_of_digits s + digit_val c"
  by (simp add: nat_of_digits_def)

lemma show_nat_nonempty: "show_nat n \<noteq> []"
  by (simp add: show_nat.simps [of n])

lemma show_nat_digits: "\<forall>c \<in> set (show_nat n). is_digit c"
proof (induction n rule: show_nat.induct)
  case (1 n)
  show ?case
  proof (cases "n < 10")
    case True
    then show ?thesis
      by (simp add: show_nat.simps [of n] is_digit_digit_char)
  next
    case False
    with 1 show ?thesis
      by (simp add: show_nat.simps [of n] is_digit_digit_char)
  qed
qed


lemma nat_of_digits_show_nat: "nat_of_digits (show_nat n) = n"
proof (induction n rule: show_nat.induct)
  case (1 n)
  show ?case
  proof (cases "n < 10")
    case True
    then show ?thesis
      by (simp add: show_nat.simps [of n] nat_of_digits_def digit_val_digit_char)
  next
    case False
    with 1 have "nat_of_digits (show_nat (n div 10)) = n div 10" by simp
    with False show ?thesis
      by (simp add: show_nat.simps [of n] nat_of_digits_snoc digit_val_digit_char)
  qed
qed


lemma show_nat_inj:
  assumes "show_nat n = show_nat m"
  shows "n = m"
proof -
  have "nat_of_digits (show_nat n) = nat_of_digits (show_nat m)"
    by (simp only: assms)
  then show ?thesis
    by (simp only: nat_of_digits_show_nat)
qed

lemma is_digit_not_dash: "is_digit c \<Longrightarrow> c \<noteq> CHR ''-''"
  by (auto simp: is_digit_def)

lemma digit_run_unique:
  assumes "\<forall>c \<in> set xs. is_digit c" "\<forall>c \<in> set ys. is_digit c"
    and "ends_number r" "ends_number r'"
  shows "xs @ r = ys @ r' \<Longrightarrow> xs = ys \<and> r = r'"
  using assms
proof (induction xs arbitrary: ys)
  case Nil
  then show ?case
    by (cases ys) (auto simp: ends_number_def)
next
  case (Cons x xs)
  show ?case
  proof (cases ys)
    case Nil
    with Cons.prems show ?thesis
      by (auto simp: ends_number_def)
  next
    case (Cons y ys')
    with Cons.prems Cons.IH [of ys'] show ?thesis by auto
  qed
qed


lemma show_int_unique:
  assumes "show_int i @ r = show_int j @ r'" "ends_number r" "ends_number r'"
  shows "i = j \<and> r = r'"
proof -
  have neg: "show_int k = CHR ''-'' # show_nat (nat (- k))" if "k < 0" for k
    using that by (simp add: show_int_def)
  have pos: "show_int k = show_nat (nat k)" if "\<not> k < 0" for k
    using that by (simp add: show_int_def)
  have first: "hd (show_nat n @ s) \<noteq> CHR ''-''" for n s
    using show_nat_nonempty [of n] show_nat_digits [of n] is_digit_not_dash
    by (cases "show_nat n") auto
  consider "i < 0" "j < 0" | "i < 0" "\<not> j < 0" | "\<not> i < 0" "j < 0" | "\<not> i < 0" "\<not> j < 0"
    by blast
  then show ?thesis
  proof cases
    case 1
    with assms(1) have "show_nat (nat (- i)) @ r = show_nat (nat (- j)) @ r'"
      by (simp add: neg)
    from digit_run_unique [OF show_nat_digits show_nat_digits assms(2,3) this]
    have "show_nat (nat (- i)) = show_nat (nat (- j))" and "r = r'" by simp_all
    from show_nat_inj [OF this(1)] 1 \<open>r = r'\<close> show ?thesis by simp
  next
    case 2
    with assms(1) have "CHR ''-'' # show_nat (nat (- i)) @ r = show_nat (nat j) @ r'"
      by (simp add: neg pos)
    then have "hd (show_nat (nat j) @ r') = CHR ''-''"
      by (metis list.sel(1))
    with first show ?thesis by blast
  next
    case 3
    with assms(1) have "show_nat (nat i) @ r = CHR ''-'' # show_nat (nat (- j)) @ r'"
      by (simp add: neg pos)
    then have "hd (show_nat (nat i) @ r) = CHR ''-''"
      by (metis list.sel(1))
    with first show ?thesis by blast
  next
    case 4
    with assms(1) have "show_nat (nat i) @ r = show_nat (nat j) @ r'"
      by (simp add: pos)
    from digit_run_unique [OF show_nat_digits show_nat_digits assms(2,3) this]
    have "show_nat (nat i) = show_nat (nat j)" and "r = r'" by simp_all
    from show_nat_inj [OF this(1)] 4 \<open>r = r'\<close> show ?thesis by simp
  qed
qed


lemma hex_digit_inj:
  assumes "a < 16" "b < 16" "hex_digit a = hex_digit b"
  shows "a = b"
proof -
  have "distinct ''0123456789abcdef''" by simp
  with assms show ?thesis
    unfolding hex_digit_def by (simp add: nth_eq_iff_index_eq)
qed

lemma quote_char_plain: "\<not> escaped c \<Longrightarrow> quote_char c = [c]"
  by (auto simp: escaped_def quote_char_def)

lemma quote_char_escaped:
  assumes "escaped c"
  shows "quote_char c = [CHR 0x5C, CHR 0x22] \<and> c = CHR 0x22
       \<or> quote_char c = [CHR 0x5C, CHR 0x5C] \<and> c = CHR 0x5C
       \<or> quote_char c = [CHR 0x5C, CHR ''b''] \<and> c = CHR 0x08
       \<or> quote_char c = [CHR 0x5C, CHR ''f''] \<and> c = CHR 0x0C
       \<or> quote_char c = [CHR 0x5C, CHR ''n''] \<and> c = CHR 0x0A
       \<or> quote_char c = [CHR 0x5C, CHR ''r''] \<and> c = CHR 0x0D
       \<or> quote_char c = [CHR 0x5C, CHR ''t''] \<and> c = CHR 0x09
       \<or> quote_char c = [CHR 0x5C, CHR ''u'', CHR ''0'', CHR ''0'',
              hex_digit (of_char c div 16), hex_digit (of_char c mod 16)]
          \<and> (of_char c :: nat) < 32"
  using assms by (auto simp add: escaped_def quote_char_def)


lemma control_char_unique:
  assumes "(of_char c :: nat) < 32" "(of_char c' :: nat) < 32"
    and "hex_digit (of_char c div 16) = hex_digit (of_char c' div 16)"
    and "hex_digit (of_char c mod 16) = hex_digit (of_char c' mod 16)"
  shows "c = c'"
proof -
  let ?n = "of_char c :: nat" and ?m = "of_char c' :: nat"
  have "?n div 16 = ?m div 16"
    using assms(1,2) by (intro hex_digit_inj [OF _ _ assms(3)]) simp_all
  moreover have "?n mod 16 = ?m mod 16"
    by (intro hex_digit_inj [OF _ _ assms(4)]) simp_all
  ultimately have "?n = ?m"
    by (metis div_mult_mod_eq)
  then show ?thesis by simp
qed

lemma quote_char_unique:
  assumes "quote_char c @ x = quote_char c' @ y"
  shows "c = c' \<and> x = y"
proof (cases "escaped c")
  case False
  note plain = quote_char_plain [OF False]
  show ?thesis
  proof (cases "escaped c'")
    case False
    with assms plain show ?thesis by (simp add: quote_char_plain)
  next
    case True
    from quote_char_escaped [OF True] assms plain have "c = CHR 0x5C" by auto
    with \<open>\<not> escaped c\<close> show ?thesis by (simp add: escaped_def)
  qed
next
  case True
  note esc = quote_char_escaped [OF True]
  show ?thesis
  proof (cases "escaped c'")
    case False
    from esc assms quote_char_plain [OF False] have "c' = CHR 0x5C" by auto
    with False show ?thesis by (simp add: escaped_def)
  next
    case c': True
    from esc quote_char_escaped [OF c'] assms
    show ?thesis
      by (elim disjE conjE) (auto dest: control_char_unique)
  qed
qed


lemma quote_char_first: "\<exists>h t. quote_char c = h # t \<and> h \<noteq> CHR 0x22"
proof (cases "escaped c")
  case True
  from quote_char_escaped [OF True] show ?thesis by auto
next
  case False
  then show ?thesis by (auto simp: quote_char_plain escaped_def)
qed

lemma quoted_body_unique:
  "concat (map quote_char s) @ CHR 0x22 # r = concat (map quote_char s') @ CHR 0x22 # r'
   \<Longrightarrow> s = s' \<and> r = r'"
proof (induction s arbitrary: s')
  case Nil
  show ?case
  proof (cases s')
    case Nil
    with Nil.prems show ?thesis by simp
  next
    case (Cons c' t')
    with Nil.prems quote_char_first [of c'] show ?thesis by auto
  qed
next
  case (Cons c t)
  show ?case
  proof (cases s')
    case Nil
    with Cons.prems quote_char_first [of c] show ?thesis by auto
  next
    case (Cons c' t')
    with Cons.prems have
      "quote_char c @ (concat (map quote_char t) @ CHR 0x22 # r) =
       quote_char c' @ (concat (map quote_char t') @ CHR 0x22 # r')"
      by simp
    from quote_char_unique [OF this] Cons.IH [of t'] Cons show ?thesis by simp
  qed
qed

lemma QuoteJSONString_unique:
  "QuoteJSONString s @ r = QuoteJSONString s' @ r' \<Longrightarrow> s = s' \<and> r = r'"
  using quoted_body_unique [of s r s' r'] by (simp add: QuoteJSONString_def)

lemma show_int_head: "\<exists>h t. show_int i @ r = h # t \<and> (h = CHR ''-'' \<or> is_digit h)"
proof -
  obtain h t where "show_nat (nat \<bar>i\<bar>) = h # t" "is_digit h"
    using show_nat_nonempty [of "nat \<bar>i\<bar>"] show_nat_digits [of "nat \<bar>i\<bar>"]
    by (cases "show_nat (nat \<bar>i\<bar>)") auto
  then show ?thesis
    by (cases "i < 0") (auto simp: show_int_def abs_if)
qed

text \<open>The first character of a JSON text tells the kind of value.\<close>

lemma stringify_head:
  "\<exists>h t. JSON_stringify v @ r = h # t \<and>
     (case v of
        JNull \<Rightarrow> h = CHR ''n''
      | JBool b \<Rightarrow> h = CHR ''t'' \<or> h = CHR ''f''
      | JNum i \<Rightarrow> h = CHR ''-'' \<or> is_digit h
      | JStr s \<Rightarrow> h = CHR 0x22
      | JArr xs \<Rightarrow> h = CHR ''['')"
proof (cases v)
  case (JNum i)
  with show_int_head [of i r] show ?thesis by simp
qed (simp_all add: QuoteJSONString_def)

lemma stringify_head_not_separator:
  "JSON_stringify v @ r = h # t \<Longrightarrow> h \<noteq> CHR '']'' \<and> h \<noteq> CHR '',''"
  using stringify_head [of v r] by (cases v) (auto simp: is_digit_def)


lemma join_Cons_append:
  "join sep (x # xs) @ t = x @ (if xs = [] then t else sep @ join sep xs @ t)"
  by (cases xs) simp_all

lemma ends_number_separator:
  "ends_number (if xs = [] then CHR '']'' # r else '','' @ t)"
  by (simp add: ends_number_def is_digit_def)

lemma elements_unique:
  assumes "\<And>x b r r'. x \<in> set xs \<Longrightarrow> ends_number r \<Longrightarrow> ends_number r' \<Longrightarrow>
             JSON_stringify x @ r = JSON_stringify b @ r' \<Longrightarrow> x = b \<and> r = r'"
  shows "join '','' (map JSON_stringify xs) @ CHR '']'' # r =
         join '','' (map JSON_stringify ys) @ CHR '']'' # r' \<Longrightarrow> xs = ys \<and> r = r'"
  using assms
proof (induction xs arbitrary: ys)
  case Nil
  show ?case
  proof (cases ys)
    case Nil
    with Nil.prems show ?thesis by simp
  next
    case (Cons y ys')
    from Nil.prems(1) have "JSON_stringify y @
        (if ys' = [] then CHR '']'' # r' else '','' @ join '','' (map JSON_stringify ys') @ CHR '']'' # r')
        = CHR '']'' # r"
      unfolding Cons by (simp add: join_Cons_append)
    from stringify_head_not_separator [OF this] show ?thesis by simp
  qed
next
  case (Cons x xs')
  let ?rest = "\<lambda>zs q. if zs = [] then CHR '']'' # q
                       else '','' @ join '','' (map JSON_stringify zs) @ CHR '']'' # q"
  show ?case
  proof (cases ys)
    case Nil
    from Cons.prems(1) have "JSON_stringify x @ ?rest xs' r = CHR '']'' # r'"
      unfolding Nil by (simp add: join_Cons_append)
    from stringify_head_not_separator [OF this] show ?thesis by simp
  next
    case ys: (Cons y ys')
    from Cons.prems(1) have eq: "JSON_stringify x @ ?rest xs' r = JSON_stringify y @ ?rest ys' r'"
      unfolding ys by (simp add: join_Cons_append)
    have "x = y \<and> ?rest xs' r = ?rest ys' r'"
      by (rule Cons.prems(2) [OF _ _ _ eq]) (simp_all add: ends_number_def is_digit_def)
    then have xy: "x = y" and rest: "?rest xs' r = ?rest ys' r'" by simp_all
    have "xs' = ys' \<and> r = r'"
    proof (cases "xs' = []")
      case True
      with rest show ?thesis by (cases "ys' = []") simp_all
    next
      case False
      with rest have nonempty: "ys' \<noteq> []" by (cases "ys' = []") simp_all
      with rest False have "join '','' (map JSON_stringify xs') @ CHR '']'' # r =
          join '','' (map JSON_stringify ys') @ CHR '']'' # r'"
        by simp
      then show ?thesis
        by (rule Cons.IH) (rule Cons.prems(2), simp_all)
    qed
    with xy ys show ?thesis by simp
  qed
qed

theorem stringify_unique:
  "ends_number r \<Longrightarrow> ends_number r' \<Longrightarrow>
   JSON_stringify a @ r = JSON_stringify b @ r' \<Longrightarrow> a = b \<and> r = r'"
proof (induction a arbitrary: b r r')
  case JNull
  from JNull.prems(3) stringify_head [of b r'] show ?case
    by (cases b) (auto simp: is_digit_def)
next
  case (JBool x)
  from JBool.prems(3) stringify_head [of b r'] show ?case
    by (cases b) (auto simp: is_digit_def split: if_splits)
next
  case (JNum i)
  show ?case
  proof (cases b)
    case (JNum j)
    with JNum.prems show ?thesis
      using show_int_unique [of i r j r'] by simp
  qed (use JNum.prems(3) show_int_head [of i r] in \<open>auto simp: QuoteJSONString_def is_digit_def split: if_splits\<close>)
next
  case (JStr s)
  show ?case
  proof (cases b)
    case (JStr s')
    with JStr.prems(3) show ?thesis
      using QuoteJSONString_unique [of s r s' r'] by simp
  qed (use JStr.prems(3) stringify_head [of b r'] in \<open>auto simp: QuoteJSONString_def is_digit_def split: if_splits\<close>)
next
  case (JArr xs)
  show ?case
  proof (cases b)
    case (JArr ys)
    with JArr.prems(3) have "join '','' (map JSON_stringify xs) @ CHR '']'' # r =
        join '','' (map JSON_stringify ys) @ CHR '']'' # r'"
      by simp
    then have "xs = ys \<and> r = r'"
      by (rule elements_unique [rotated]) (rule JArr.IH, simp_all)
    with JArr show ?thesis by simp
  qed (use JArr.prems(3) stringify_head [of b r'] in \<open>auto simp: QuoteJSONString_def is_digit_def split: if_splits\<close>)
qed

corollary JSON_stringify_inj: "JSON_stringify a = JSON_stringify b \<Longrightarrow> a = b"
  using stringify_unique [of "[]" "[]" a b] by (simp add: ends_number_def)



section \<open>Quiz grading\<close>

lemma answerMatches_iff: "answerMatches a c \<longleftrightarrow> a = c"
proof (cases a)
  case None
  then show ?thesis by (cases c) (simp_all add: answerMatches_def)
next
  case (Some x)
  then show ?thesis
    by (cases c) (auto simp add: answerMatches_def dest: JSON_stringify_inj)
qed

lemma gradeAnswers_from:
  "index + length subs \<le> length qs \<Longrightarrow>
   gradeAnswers qs index subs sc =
     Inr (map2 graded_by_equality (drop index qs) subs,
          sc + sum_list (map ans_points (map2 graded_by_equality (drop index qs) subs)))"
proof (induction subs arbitrary: index sc)
  case Nil
  then show ?case by simp
next
  case (Cons a rest)
  then have less: "index < length qs" and next_ok: "Suc index + length rest \<le> length qs"
    by simp_all
  from less have split: "drop index qs = qs ! index # drop (Suc index) qs"
    by (simp add: Cons_nth_drop_Suc)
  show ?case
    using less
    by (simp add: Cons.IH [OF next_ok] split Let_def answerMatches_iff graded_by_equality_def
        add.assoc)
qed

lemma gradeAnswers_too_many:
  "length qs < index + length subs \<Longrightarrow> subs \<noteq> [] \<Longrightarrow> index \<le> length qs \<Longrightarrow>
   gradeAnswers qs index subs sc = Inl TypeError"
proof (induction subs arbitrary: index sc)
  case Nil
  then show ?case by simp
next
  case (Cons a rest)
  show ?case
  proof (cases "index < length qs")
    case False
    then show ?thesis by simp
  next
    case True
    with Cons.prems have "rest \<noteq> []" by auto
    with Cons.prems True have "gradeAnswers qs (Suc index) rest sc' = Inl TypeError" for sc'
      by (intro Cons.IH) simp_all
    with True show ?thesis by (simp add: Let_def)
  qed
qed

text \<open>
  Claim C4, as amended. Quiz grading marks a submitted answer correct if and only if
  it is equal to the question's correct answer, which for a list of values means the
  same values in the same order; a correct answer earns the question's point value
  (1 when unset or 0), any other answer earns 0, and the score is the sum of the
  points earned. Answers beyond the last question make grading fail.
\<close>

theorem C4_grading:
  "(length subs \<le> length qs \<longrightarrow>
      gradeAnswers qs 0 subs 0 =
        Inr (map2 graded_by_equality qs subs,
             sum_list (map ans_points (map2 graded_by_equality qs subs))))
   \<and> (length qs < length subs \<longrightarrow> gradeAnswers qs 0 subs 0 = Inl TypeError)
   \<and> (answerMatches a c \<longleftrightarrow> a = c)
   \<and> (answerMatches (Some (JArr xs)) (Some (JArr ys)) \<longleftrightarrow> xs = ys)"
proof (intro conjI impI)
  assume "length subs \<le> length qs"
  then show "gradeAnswers qs 0 subs 0 =
        Inr (map2 graded_by_equality qs subs,
             sum_list (map ans_points (map2 graded_by_equality qs subs)))"
    using gradeAnswers_from [of 0 subs qs 0] by simp
next
  assume more: "length qs < length subs"
  then have "subs \<noteq> []" by auto
  with more show "gradeAnswers qs 0 subs 0 = Inl TypeError"
    using gradeAnswers_too_many [of qs 0 subs 0] by simp
next
  show "answerMatches a c \<longleftrightarrow> a = c"
    by (rule answerMatches_iff)
next
  show "answerMatches (Some (JArr xs)) (Some (JArr ys)) \<longleftrightarrow> xs = ys"
    by (simp add: answerMatches_iff)
qed

theorem C4_grading_witness:
  "length [Some (JStr ''a''), Some (JArr [JStr ''a'', JStr ''b'']), Some (JNum 4)]
     \<le> length (quiz_questions quiz_lesson)
   \<and> gradeAnswers (quiz_questions quiz_lesson) 0
        [Some (JStr ''a''), Some (JArr [JStr ''a'', JStr ''b'']), Some (JNum 4)] 0 =
      Inr ([\<lparr>questionId = ''q1'', answer = Some (JStr ''a''), isCorrect = True, ans_points = 1\<rparr>,
            \<lparr>questionId = ''q2'', answer = Some (JArr [JStr ''a'', JStr ''b'']),
              isCorrect = True, ans_points = 2\<rparr>,
            \<lparr>questionId = ''q3'', answer = Some (JNum 4), isCorrect = False, ans_points = 0\<rparr>],
           3)
   \<and> length (quiz_questions quiz_lesson) < length (replicate 4 (Some JNull))
   \<and> gradeAnswers (quiz_questions quiz_lesson) 0 (replicate 4 (Some JNull)) 0 = Inl TypeError"
  using C4_grading [of "[Some (JStr ''a''), Some (JArr [JStr ''a'', JStr ''b'']), Some (JNum 4)]"
      "quiz_questions quiz_lesson"]
    C4_grading [of "replicate 4 (Some JNull)" "quiz_questions quiz_lesson"]
  by (simp add: quiz_lesson_def graded_by_equality_def or_default_def)

text \<open>
  The claim as stated fails for a multi-valued answer given in another order: the same
  two values, listed the other way round, are graded incorrect and earn nothing.
\<close>

theorem C4_order_counterexample:
  "set [JStr ''b'', JStr ''a''] = set [JStr ''a'', JStr ''b'']
   \<and> gradeAnswers
        [\<lparr>q_id = ''q2'', correctAnswer = Some (JArr [JStr ''a'', JStr ''b'']), points = Some 2\<rparr>]
        0 [Some (JArr [JStr ''b'', JStr ''a''])] 0 =
      Inr ([\<lparr>questionId = ''q2'', answer = Some (JArr [JStr ''b'', JStr ''a'']),
             isCorrect = False, ans_points = 0\<rparr>], 0)"
  by (simp add: answerMatches_def QuoteJSONString_def quote_char_def Let_def insert_commute)

end
